theory Spec2Isabelle
  imports Main
begin

section \<open>Python values and string operations used by main.py\<close>

text \<open>
  Strings are \<^typ>\<open>string\<close>: one \<^typ>\<open>char\<close> is one character of the Python
  \<open>str\<close>. The characters below 128 are the ASCII characters; a \<^typ>\<open>char\<close> from 128 on
  stands for a character beyond ASCII, and what the interpreter says of such a character
  (whether \<open>str.isdigit\<close> accepts it) is a parameter of the model.

  Exceptions are values. Every exception of the model is a subclass of Python's
  \<open>Exception\<close>, which is what \<open>except Exception\<close> in main.py catches.
\<close>

datatype exn =
    MonitoringException string
  | ValueError string
  | HTTPError int string
  | OtherException string string

text \<open>
  \<open>HTTPError status reason\<close> is \<open>urllib.error.HTTPError\<close> with its \<open>status\<close> and
  \<open>reason\<close> attributes; \<open>OtherException cls msg\<close> is any other exception class
  (\<open>URLError\<close>, \<open>OSError\<close>, \<open>TimeoutError\<close>, \<open>SMTPException\<close>, ...).
\<close>

definition TAB :: char where
  "TAB = CHR 0x09"

definition NL :: char where
  "NL = CHR 0x0A"

definition CR :: char where
  "CR = CHR 0x0D"

definition QUOTE :: char where
  "QUOTE = CHR 0x27"

definition is_ascii_digit :: "char \<Rightarrow> bool" where
  "is_ascii_digit c = (c \<in> set ''0123456789'')"

definition is_ascii_alpha :: "char \<Rightarrow> bool" where
  "is_ascii_alpha c =
     (c \<in> set ''abcdefghijklmnopqrstuvwxyz'' \<or> c \<in> set ''ABCDEFGHIJKLMNOPQRSTUVWXYZ'')"

text \<open>\<open>str.lower()\<close> on ASCII letters.\<close>

definition lower_char :: "char \<Rightarrow> char" where
  "lower_char c =
     (if c \<in> set ''ABCDEFGHIJKLMNOPQRSTUVWXYZ'' then char_of (of_char c + (32::nat)) else c)"

definition lower :: "string \<Rightarrow> string" where
  "lower s = map lower_char s"

text \<open>\<open>s.split(sep)\<close> for a one-character separator: always at least one part.\<close>

fun py_split :: "char \<Rightarrow> string \<Rightarrow> string list" where
  "py_split sep [] = [[]]"
| "py_split sep (c # cs) =
     (if c = sep then [] # py_split sep cs
      else (case py_split sep cs of
              [] \<Rightarrow> [[c]]
            | p # ps \<Rightarrow> (c # p) # ps))"

text \<open>\<open>sep.join(parts)\<close>.\<close>

fun py_join :: "string \<Rightarrow> string list \<Rightarrow> string" where
  "py_join sep [] = []"
| "py_join sep [p] = p"
| "py_join sep (p # q # ps) = p @ sep @ py_join sep (q # ps)"

text \<open>The part of \<open>s\<close> before the first \<open>c\<close> (all of \<open>s\<close> when there is none), and the rest
  from that \<open>c\<close> on.\<close>

definition before :: "char \<Rightarrow> string \<Rightarrow> string" where
  "before c s = takeWhile (\<lambda>x. x \<noteq> c) s"

definition from_first :: "char \<Rightarrow> string \<Rightarrow> string" where
  "from_first c s = dropWhile (\<lambda>x. x \<noteq> c) s"

text \<open>\<open>str(n)\<close> for a non-negative integer: its decimal digits.\<close>

definition digit_char :: "nat \<Rightarrow> char" where
  "digit_char d = char_of (48 + d)"

function str_nat :: "nat \<Rightarrow> string" where
  "str_nat n = (if n < 10 then [digit_char n] else str_nat (n div 10) @ [digit_char (n mod 10)])"
  by pat_completeness auto
termination
  by (relation "measure id") auto

declare str_nat.simps [simp del]

text \<open>The value of a string of ASCII digits.\<close>

definition digit_val :: "char \<Rightarrow> nat" where
  "digit_val c = of_char c - 48"

definition decimal :: "string \<Rightarrow> nat" where
  "decimal ds = foldl (\<lambda>acc c. 10 * acc + digit_val c) 0 ds"

section \<open>urllib.parse.urlparse\<close>

text \<open>
  main.py reads the \<open>scheme\<close> and \<open>path\<close> of \<open>urlparse(url)\<close> and asks whether the
  path \<open>isdigit()\<close>. The definitions follow \<open>urlsplit\<close> and \<open>urlparse\<close> of the standard
  library (CPython 3.11) step by step. Three answers of the library are taken as
  parameters: the validation of a bracketed host (\<open>_check_bracketed_host\<close>, which asks
  the \<open>ipaddress\<close> module), the NFKC check of a network location that is not ASCII
  (\<open>_checknetloc\<close>), each returning the exception it raises, if any; and whether a
  character beyond ASCII is a digit for \<open>str.isdigit\<close> (as the Arabic-Indic digits and
  the superscript digits are).
\<close>

record urllib_checks =
  check_bracketed_host :: "string \<Rightarrow> exn option"
  checknetloc_nfkc :: "string \<Rightarrow> exn option"
  unicode_isdigit :: "char \<Rightarrow> bool"

text \<open>\<open>str.isdigit()\<close>: false on the empty string, true when every character is a digit.\<close>

definition is_digit :: "urllib_checks \<Rightarrow> char \<Rightarrow> bool" where
  "is_digit lib c = (is_ascii_digit c \<or> (128 \<le> (of_char c :: nat) \<and> unicode_isdigit lib c))"

definition isdigit :: "urllib_checks \<Rightarrow> string \<Rightarrow> bool" where
  "isdigit lib s = (s \<noteq> [] \<and> list_all (is_digit lib) s)"

record parse_result =
  scheme :: string
  netloc :: string
  path :: string

definition scheme_chars :: "char set" where
  "scheme_chars =
     set ''abcdefghijklmnopqrstuvwxyz'' \<union> set ''ABCDEFGHIJKLMNOPQRSTUVWXYZ'' \<union>
     set ''0123456789'' \<union> set ''+-.''"

definition uses_params :: "string list" where
  "uses_params =
     ['''', ''ftp'', ''hdl'', ''prospero'', ''http'', ''imap'', ''https'', ''shttp'', ''rtsp'',
      ''rtsps'', ''rtspu'', ''sip'', ''sips'', ''mms'', ''sftp'', ''tel'']"

text \<open>\<open>url.lstrip(_WHATWG_C0_CONTROL_OR_SPACE)\<close>, then the removal of tab, CR and LF.\<close>

definition clean_url :: "string \<Rightarrow> string" where
  "clean_url url =
     filter (\<lambda>c. c \<noteq> TAB \<and> c \<noteq> CR \<and> c \<noteq> NL)
       (dropWhile (\<lambda>c. (of_char c :: nat) \<le> 32) url)"

text \<open>The scheme, when the text before the first colon is a letter followed by scheme
  characters; the pair is the scheme and the rest of the URL.\<close>

definition split_scheme :: "string \<Rightarrow> string \<times> string" where
  "split_scheme url =
     (let pre = before (CHR '':'') url in
      if length pre < length url \<and> pre \<noteq> [] \<and> is_ascii_alpha (hd pre)
         \<and> list_all (\<lambda>c. c \<in> scheme_chars) pre
      then (lower pre, drop (length pre + 1) url)
      else ('''', url))"

text \<open>\<open>_splitnetloc(url, 2)\<close>: the network location ends at the first of \<open>/ ? #\<close>.\<close>

definition splitnetloc :: "string \<Rightarrow> string \<times> string" where
  "splitnetloc url =
     (let rest = drop 2 url;
          is_delim = (\<lambda>c. c = CHR ''/'' \<or> c = CHR ''?'' \<or> c = CHR ''#'')
      in (takeWhile (\<lambda>c. \<not> is_delim c) rest, dropWhile (\<lambda>c. \<not> is_delim c) rest))"

definition urlsplit :: "urllib_checks \<Rightarrow> string \<Rightarrow> exn + parse_result" where
  "urlsplit lib url0 =
     (let (sch, url1) = split_scheme (clean_url url0);
          (nl, url2) = (if take 2 url1 = ''//'' then splitnetloc url1 else ('''', url1));
          has_open = (CHR ''['' \<in> set nl);
          has_close = (CHR '']'' \<in> set nl);
          bracketed_host = before (CHR '']'') (drop 1 (from_first (CHR ''['') nl));
          url3 = before (CHR ''?'') (before (CHR ''#'') url2)
      in if has_open \<noteq> has_close then Inl (ValueError ''Invalid IPv6 URL'')
         else case (if has_open \<and> has_close then check_bracketed_host lib bracketed_host
                    else None) of
                Some e \<Rightarrow> Inl e
              | None \<Rightarrow>
                  (case (if nl = [] \<or> list_all (\<lambda>c. (of_char c :: nat) < 128) nl then None
                         else checknetloc_nfkc lib nl) of
                     Some e \<Rightarrow> Inl e
                   | None \<Rightarrow> Inr \<lparr>scheme = sch, netloc = nl, path = url3\<rparr>))"

text \<open>\<open>_splitparams\<close>: the path without its parameters (after the last slash, from the
  first semicolon on).\<close>

definition splitparams :: "string \<Rightarrow> string" where
  "splitparams url =
     (if CHR ''/'' \<in> set url then
        (let tail = rev (before (CHR ''/'') (rev url));
             head = take (length url - length tail) url
         in if CHR '';'' \<in> set tail then head @ before (CHR '';'') tail else url)
      else before (CHR '';'') url)"

definition urlparse :: "urllib_checks \<Rightarrow> string \<Rightarrow> exn + parse_result" where
  "urlparse lib url =
     (case urlsplit lib url of
        Inl e \<Rightarrow> Inl e
      | Inr r \<Rightarrow>
          if scheme r \<in> set uses_params \<and> CHR '';'' \<in> set (path r)
          then Inr (r\<lparr>path := splitparams (path r)\<rparr>)
          else Inr r)"

section \<open>Endpoint classification\<close>

definition find_url_type :: "urllib_checks \<Rightarrow> string \<Rightarrow> exn + string" where
  "find_url_type lib url =
     (case urlparse lib url of
        Inl e \<Rightarrow> Inl e
      | Inr parsed \<Rightarrow>
          if scheme parsed \<in> {''http'', ''https''} then Inr ''urllib''
          else if isdigit lib (path parsed) then Inr ''telnet''
          else Inl (MonitoringException (''cannot determine type: '' @ url)))"

section \<open>The environment and the state of a run\<close>

text \<open>
  Everything main.py reaches outside the process is an \<open>env\<close>: what the network, the
  mail server, the clock and the interpreter answer. Each answer may depend on the
  number of the external call (\<open>tick\<close>), so that probing one URL twice can give two
  outcomes. Times are integers in microseconds: \<open>time_time\<close> is \<open>time.time()\<close>,
  \<open>datetime_now\<close> is the naive local \<open>datetime.now()\<close> on the wall clock,
  \<open>timestamp\<close> is \<open>datetime.timestamp()\<close> (wall clock to POSIX time, which is where
  the time zone lives), \<open>isoformat\<close> is \<open>datetime.isoformat()\<close>. Floating-point
  rounding of these readings is not modelled. \<open>urlopen_read\<close> is the outcome of
  \<open>urlopen(url)\<close> followed by \<open>response.read()\<close>; \<open>tn_open\<close> the outcome of
  \<open>Telnet.open(host, port, timeout)\<close>; \<open>send_message\<close> that of building and sending
  the message; \<open>db_insert\<close> that of the \<open>insert\<close> and its \<open>commit\<close> in \<open>log_event\<close>
  (a failed append leaves no row). \<open>py_int\<close> is \<open>int(s)\<close> on a string: the number, or
  the \<open>ValueError\<close> it raises. \<open>format_exc_body\<close> renders the frames and the last line
  of a traceback. The count query is taken to succeed.
\<close>

type_synonym datetime = int

record email =
  subject :: string
  content :: string
  from_addr :: string
  to_addr :: string

record event =
  event_id :: string
  ts :: int
  description :: string

datatype net_call =
    UrlOpen string
  | TnOpen string int nat
  | TnClose

record env =
  urllib :: urllib_checks
  urlopen_read :: "nat \<Rightarrow> string \<Rightarrow> exn + string"
  tn_open :: "nat \<Rightarrow> string \<Rightarrow> int \<Rightarrow> nat \<Rightarrow> exn option"
  send_message :: "nat \<Rightarrow> email \<Rightarrow> exn option"
  db_insert :: "nat \<Rightarrow> event \<Rightarrow> exn option"
  py_int :: "string \<Rightarrow> exn + int"
  format_exc_body :: "exn \<Rightarrow> string"
  uuid4 :: "nat \<Rightarrow> string"
  time_time :: "nat \<Rightarrow> int"
  datetime_now :: "nat \<Rightarrow> datetime"
  timestamp :: "datetime \<Rightarrow> int"
  isoformat :: "datetime \<Rightarrow> string"

text \<open>
  The state a run changes: the call counter, the \<open>events\<close> table in insertion order,
  the messages the mail server accepted, and the network calls made.
\<close>

record world =
  tick :: nat
  events :: "event list"
  outbox :: "email list"
  netlog :: "net_call list"

record config =
  urls :: "string list"
  from_email :: string
  to_email :: string

text \<open>\<open>traceback.format_exc()\<close> inside an \<open>except\<close> block.\<close>

definition format_exc :: "env \<Rightarrow> exn \<Rightarrow> string" where
  "format_exc env e = ''Traceback (most recent call last):'' @ [NL] @ format_exc_body env e"

text \<open>\<open>int(x)\<close> on a float of seconds, here microseconds: truncation towards zero.\<close>

definition int_seconds :: "int \<Rightarrow> int" where
  "int_seconds us = (if 0 \<le> us then us div 1000000 else - ((- us) div 1000000))"

definition timedelta_hours :: "int \<Rightarrow> int" where
  "timedelta_hours h = h * 3600 * 1000000"

section \<open>Probes\<close>

definition telnet :: "env \<Rightarrow> string \<Rightarrow> world \<Rightarrow> (bool \<times> string) \<times> world" where
  "telnet env url w =
     (case py_split (CHR '':'') url of
        [host, port] \<Rightarrow>
          (case py_int env port of
             Inl e \<Rightarrow> ((False, format_exc env e), w)
           | Inr p \<Rightarrow>
               (let w1 = w\<lparr>tick := tick w + 1, netlog := netlog w @ [TnOpen host p 10]\<rparr> in
                case tn_open env (tick w) host p 10 of
                  Some e \<Rightarrow> ((False, format_exc env e), w1)
                | None \<Rightarrow> ((True, []), w1\<lparr>netlog := netlog w1 @ [TnClose]\<rparr>)))
      | parts \<Rightarrow>
          ((False, format_exc env (ValueError
              (if length parts < 2 then ''not enough values to unpack (expected 2, got 1)''
               else ''too many values to unpack (expected 2)''))), w))"

definition request :: "env \<Rightarrow> string \<Rightarrow> world \<Rightarrow> (bool \<times> string) \<times> world" where
  "request env url w =
     (let w1 = w\<lparr>tick := tick w + 1, netlog := netlog w @ [UrlOpen url]\<rparr> in
      case urlopen_read env (tick w) url of
        Inr body \<Rightarrow> ((True, []), w1)
      | Inl (HTTPError status reason) \<Rightarrow>
          if status \<ge> 500 then ((False, reason), w1) else ((True, []), w1)
      | Inl e \<Rightarrow> ((False, format_exc env e), w1))"

definition run_url :: "env \<Rightarrow> string \<Rightarrow> world \<Rightarrow> (exn + bool \<times> string) \<times> world" where
  "run_url env url w =
     (case find_url_type (urllib env) url of
        Inl e \<Rightarrow> (Inl e, w)
      | Inr url_type \<Rightarrow>
          if url_type = ''urllib'' then (let (r, w1) = request env url w in (Inr r, w1))
          else if url_type = ''telnet'' then (let (r, w1) = telnet env url w in (Inr r, w1))
          else (Inl (MonitoringException (''cannot determine type: '' @ url)), w))"

section \<open>Notifications and the event store\<close>

definition send_notification ::
  "env \<Rightarrow> string \<Rightarrow> string \<Rightarrow> string \<Rightarrow> string \<Rightarrow> world \<Rightarrow> (exn + unit) \<times> world" where
  "send_notification env subj message from_em to_em w =
     (let msg = \<lparr>subject = subj, content = message, from_addr = from_em, to_addr = to_em\<rparr>;
          w1 = w\<lparr>tick := tick w + 1\<rparr>
      in case send_message env (tick w) msg of
           Some e \<Rightarrow> (Inl e, w1)
         | None \<Rightarrow> (Inr (), w1\<lparr>outbox := outbox w1 @ [msg]\<rparr>))"

definition build_message :: "string \<Rightarrow> string \<Rightarrow> string" where
  "build_message url context =
     [NL] @ ''    Job check for '' @ url @ '' failed.'' @ [NL, NL] @
     ''    Exception:'' @ [NL] @
     ''    '' @ context @ [NL, NL] @
     ''    ''"

text \<open>The row \<open>(str(uuid.uuid4()), int(time.time()), event)\<close> of an append.\<close>

definition new_event :: "env \<Rightarrow> nat \<Rightarrow> string \<Rightarrow> event" where
  "new_event env t ev =
     \<lparr>event_id = uuid4 env t, ts = int_seconds (time_time env t), description = ev\<rparr>"

definition log_event :: "env \<Rightarrow> string \<Rightarrow> world \<Rightarrow> (exn + unit) \<times> world" where
  "log_event env ev w =
     (let row = new_event env (tick w) ev;
          w1 = w\<lparr>tick := tick w + 1\<rparr>
      in case db_insert env (tick w) row of
           Some e \<Rightarrow> (Inl e, w1)
         | None \<Rightarrow> (Inr (), w1\<lparr>events := events w @ [row]\<rparr>))"

definition query_event_count :: "env \<Rightarrow> event list \<Rightarrow> string \<Rightarrow> datetime \<Rightarrow> datetime \<Rightarrow> nat" where
  "query_event_count env db ev start end =
     length (filter (\<lambda>r. description r = ev
                          \<and> ts r \<ge> int_seconds (timestamp env start)
                          \<and> ts r \<le> int_seconds (timestamp env end)) db)"

section \<open>Regular mode\<close>

text \<open>The body of the \<open>for url in urls\<close> loop, and the loop: an exception leaves it.\<close>

definition run_regular_body :: "env \<Rightarrow> config \<Rightarrow> string \<Rightarrow> world \<Rightarrow> (exn + unit) \<times> world" where
  "run_regular_body env cfg url w =
     (case run_url env url w of
        (Inl e, w1) \<Rightarrow> (Inl e, w1)
      | (Inr (status, context), w1) \<Rightarrow>
          if \<not> status then
            (case send_notification env (''[URGENT] Service failed for url '' @ url)
                    (build_message url context) (from_email cfg) (to_email cfg) w1 of
               (Inl e, w2) \<Rightarrow> (Inl e, w2)
             | (Inr u, w2) \<Rightarrow> log_event env (''failed '' @ url) w2)
          else log_event env (''success '' @ url) w1)"

fun run_regular_loop :: "env \<Rightarrow> config \<Rightarrow> string list \<Rightarrow> world \<Rightarrow> (exn + unit) \<times> world" where
  "run_regular_loop env cfg [] w = (Inr (), w)"
| "run_regular_loop env cfg (url # rest) w =
     (case run_regular_body env cfg url w of
        (Inl e, w1) \<Rightarrow> (Inl e, w1)
      | (Inr u, w1) \<Rightarrow> run_regular_loop env cfg rest w1)"

definition run_regular :: "env \<Rightarrow> config \<Rightarrow> world \<Rightarrow> (exn + unit) \<times> world" where
  "run_regular env cfg w = run_regular_loop env cfg (urls cfg) w"

section \<open>Resume mode\<close>

fun resume_loop ::
  "env \<Rightarrow> event list \<Rightarrow> datetime \<Rightarrow> datetime \<Rightarrow> string list \<Rightarrow> (string \<times> nat \<times> nat) list
     \<Rightarrow> (string \<times> nat \<times> nat) list" where
  "resume_loop env db yesterday today [] url_status_list = url_status_list"
| "resume_loop env db yesterday today (url # rest) url_status_list =
     (let failed_count = query_event_count env db (''failed '' @ url) yesterday today;
          success_count = query_event_count env db (''success '' @ url) yesterday today
      in resume_loop env db yesterday today rest
           (url_status_list @ [(url, failed_count, success_count)]))"

definition per_url_line :: "string \<times> nat \<times> nat \<Rightarrow> string" where
  "per_url_line x =
     (case x of (u, f, s) \<Rightarrow> u @ '': '' @ str_nat f @ '' / '' @ str_nat (s + f))"

definition resume_message ::
  "string \<Rightarrow> string \<Rightarrow> nat \<Rightarrow> nat \<Rightarrow> string \<Rightarrow> string" where
  "resume_message since until total_runs total_errors per_url_message =
     [NL] @ ''    Here is your summary from '' @ since @ '' until '' @ until @ '':'' @ [NL, NL] @
     ''    Total Runs: '' @ str_nat total_runs @ [NL] @
     ''    Total Errors:  '' @ str_nat total_errors @ [NL] @
     ''    '' @ [NL] @
     ''    Per URL (url: errors / runs):'' @ [NL] @
     ''    '' @ per_url_message @ [NL, NL] @
     ''    Have a great day!'' @ [NL] @
     ''    ''"

definition run_resume :: "env \<Rightarrow> config \<Rightarrow> world \<Rightarrow> (exn + unit) \<times> world" where
  "run_resume env cfg w =
     (let today = datetime_now env (tick w);
          w1 = w\<lparr>tick := tick w + 1\<rparr>;
          yesterday = today - timedelta_hours 24;
          url_status_list = resume_loop env (events w1) yesterday today (urls cfg) [];
          total_errors = sum_list (map (\<lambda>x. fst (snd x)) url_status_list);
          total_runs = total_errors + sum_list (map (\<lambda>x. snd (snd x)) url_status_list);
          per_url_message = [TAB] @ py_join [NL, TAB] (map per_url_line url_status_list);
          message = resume_message (before (CHR ''.'') (isoformat env yesterday))
                      (before (CHR ''.'') (isoformat env today)) total_runs total_errors
                      per_url_message
      in send_notification env ''Monitoring Daily Resume'' message
           (from_email cfg) (to_email cfg) w1)"

section \<open>Concrete environments for the examples\<close>

text \<open>
  An environment in which every check of the parser passes, every request and connection
  succeeds, every message is delivered and every append is stored; the examples change one
  answer at a time.
\<close>

definition accepting_checks :: urllib_checks where
  "accepting_checks =
     \<lparr>check_bracketed_host = (\<lambda>h. None), checknetloc_nfkc = (\<lambda>n. None),
      unicode_isdigit = (\<lambda>c. False)\<rparr>"

text \<open>
  What \<open>int\<close> answers on the literals of the examples: the value of a plain string of
  digits, and for a plain word the error of an invalid literal.
\<close>

definition demo_int :: "string \<Rightarrow> exn + int" where
  "demo_int s =
     (if s \<noteq> [] \<and> list_all is_ascii_digit s \<and> length s \<le> 4300 then Inr (int (decimal s))
      else Inl (ValueError (''invalid literal for int() with base 10: '' @ [QUOTE] @ s @ [QUOTE])))"

definition connection_refused :: exn where
  "connection_refused = OtherException ''ConnectionRefusedError'' ''[Errno 111] Connection refused''"

definition demo_env :: env where
  "demo_env =
     \<lparr>urllib = accepting_checks,
      urlopen_read = (\<lambda>t u. Inr ''ok''),
      tn_open = (\<lambda>t h p timeout. None),
      send_message = (\<lambda>t m. None),
      db_insert = (\<lambda>t r. None),
      py_int = demo_int,
      format_exc_body = (\<lambda>e. ''  (frames)''),
      uuid4 = (\<lambda>t. ''uuid-'' @ str_nat t),
      time_time = (\<lambda>t. 1000000 * (1000 + int t)),
      datetime_now = (\<lambda>t. 1000000 * (1000 + int t)),
      timestamp = (\<lambda>d. d),
      isoformat = (\<lambda>d. ''1970-01-01T00:00:00.000000'')\<rparr>"

definition fresh_world :: world where
  "fresh_world = \<lparr>tick = 0, events = [], outbox = [], netlog = []\<rparr>"

text \<open>
  The split the specification describes for the TCP probe, at the last colon; main.py
  splits at every colon instead (\<open>url.split(":")\<close> in \<open>telnet\<close>).
\<close>

definition split_at_last_colon :: "string \<Rightarrow> string \<times> string" where
  "split_at_last_colon s =
     (let port = rev (before (CHR '':'') (rev s))
      in (take (length s - length port - 1) s, port))"

text \<open>A small store: two events at second 100 and one at second 101.\<close>

definition three_events :: "event list" where
  "three_events =
     [\<lparr>event_id = ''a'', ts = 100, description = ''success http://a''\<rparr>,
      \<lparr>event_id = ''b'', ts = 100, description = ''failed http://a''\<rparr>,
      \<lparr>event_id = ''c'', ts = 101, description = ''success http://a''\<rparr>]"

text \<open>
  \<open>n\<close> appends of one description in a row, as the round trip of the specification makes
  them; a failed append ends them.
\<close>

fun append_events :: "env \<Rightarrow> string \<Rightarrow> nat \<Rightarrow> world \<Rightarrow> (exn + unit) \<times> world" where
  "append_events env d 0 w = (Inr (), w)"
| "append_events env d (Suc n) w =
     (case log_event env d w of
        (Inl e, w1) \<Rightarrow> (Inl e, w1)
      | (Inr u, w1) \<Rightarrow> append_events env d n w1)"

text \<open>
  The description of the event a processed endpoint gets, and the subject of the
  notification of a failed probe, as the specification words them.
\<close>

definition event_label :: "bool \<Rightarrow> string \<Rightarrow> string" where
  "event_label ok url = (if ok then ''success '' else ''failed '') @ url"

definition urgent_subject :: "string \<Rightarrow> string" where
  "urgent_subject url = ''[URGENT] Service failed for url '' @ url"

text \<open>
  Environments in which every TCP connection is refused, in which the mail server is
  down as well, and in which the store refuses every append; a configuration with the
  given endpoints.
\<close>

definition smtp_down :: exn where
  "smtp_down = OtherException ''SMTPServerDisconnected'' ''Connection unexpectedly closed''"

definition database_locked :: exn where
  "database_locked = OtherException ''OperationalError'' ''database is locked''"

definition tcp_down_env :: env where
  "tcp_down_env = demo_env\<lparr>tn_open := \<lambda>t h p timeout. Some connection_refused\<rparr>"

definition mail_down_env :: env where
  "mail_down_env = tcp_down_env\<lparr>send_message := \<lambda>t m. Some smtp_down\<rparr>"

definition store_down_env :: env where
  "store_down_env = demo_env\<lparr>db_insert := \<lambda>t r. Some database_locked\<rparr>"

definition demo_config :: "string list \<Rightarrow> config" where
  "demo_config us = \<lparr>urls = us, from_email = ''monitor@example.org'', to_email = ''ops@example.org''\<rparr>"

text \<open>
  A store with three successes and one failure of \<open>http://a\<close> in the last 24 hours and
  one success 48 hours old, read at 200000.25 seconds.
\<close>

definition scenario_b_store :: "event list" where
  "scenario_b_store =
     [\<lparr>event_id = ''e1'', ts = 27200, description = ''success http://a''\<rparr>,
      \<lparr>event_id = ''e2'', ts = 150000, description = ''success http://a''\<rparr>,
      \<lparr>event_id = ''e3'', ts = 160000, description = ''failed http://a''\<rparr>,
      \<lparr>event_id = ''e4'', ts = 170000, description = ''success http://a''\<rparr>,
      \<lparr>event_id = ''e5'', ts = 180000, description = ''success http://a''\<rparr>]"

definition scenario_b_env :: env where
  "scenario_b_env =
     demo_env\<lparr>datetime_now := \<lambda>t. 200000 * 1000000 + 250000,
              isoformat := \<lambda>d. if d = 200000 * 1000000 + 250000 then ''1970-01-03T07:33:20.250000''
                               else ''1970-01-02T07:33:20.250000''\<rparr>"

definition scenario_b_world :: world where
  "scenario_b_world = \<lparr>tick = 0, events = scenario_b_store, outbox = [], netlog = []\<rparr>"

section \<open>The HTTP probe\<close>

lemma format_exc_nonempty: "format_exc env e \<noteq> []"
  by (simp add: format_exc_def)

text \<open>
  C3. The HTTP probe reports success with empty detail when the request completes without
  an error or with an HTTP error of status below 500; failure with the server's reason
  phrase as detail when the HTTP error has status 500 or more; and failure with the
  formatted traceback as detail for every other exception of the request.
\<close>

theorem request_outcome:
  "(\<forall>body. urlopen_read env (tick w) url = Inr body \<longrightarrow> fst (request env url w) = (True, []))
   \<and> (\<forall>status reason. urlopen_read env (tick w) url = Inl (HTTPError status reason) \<and> status < 500
          \<longrightarrow> fst (request env url w) = (True, []))
   \<and> (\<forall>status reason. urlopen_read env (tick w) url = Inl (HTTPError status reason) \<and> 500 \<le> status
          \<longrightarrow> fst (request env url w) = (False, reason))
   \<and> (\<forall>e. urlopen_read env (tick w) url = Inl e \<and> (\<forall>status reason. e \<noteq> HTTPError status reason)
          \<longrightarrow> fst (request env url w) = (False, format_exc env e) \<and> format_exc env e \<noteq> [])"
  by (auto simp: request_def Let_def format_exc_nonempty split: sum.splits exn.splits)

theorem request_outcome_witness:
  "fst (request demo_env ''http://a'' fresh_world) = (True, [])
   \<and> fst (request (demo_env\<lparr>urlopen_read := \<lambda>t u. Inl (HTTPError 404 ''Not Found'')\<rparr>)
            ''http://a'' fresh_world) = (True, [])
   \<and> fst (request (demo_env\<lparr>urlopen_read := \<lambda>t u. Inl (HTTPError 503 ''Service Unavailable'')\<rparr>)
            ''http://a'' fresh_world) = (False, ''Service Unavailable'')
   \<and> fst (request (demo_env\<lparr>urlopen_read := \<lambda>t u. Inl connection_refused\<rparr>)
            ''http://a'' fresh_world) = (False, format_exc demo_env connection_refused)"
proof -
  let ?e4 = "demo_env\<lparr>urlopen_read := \<lambda>t u. Inl (HTTPError 404 ''Not Found'')\<rparr>"
  let ?e5 = "demo_env\<lparr>urlopen_read := \<lambda>t u. Inl (HTTPError 503 ''Service Unavailable'')\<rparr>"
  let ?er = "demo_env\<lparr>urlopen_read := \<lambda>t u. Inl connection_refused\<rparr>"
  have a: "urlopen_read demo_env (tick fresh_world) ''http://a'' = Inr ''ok''"
    by (simp add: demo_env_def)
  have b: "urlopen_read ?e4 (tick fresh_world) ''http://a'' = Inl (HTTPError 404 ''Not Found'')
           \<and> (404::int) < 500"
    by simp
  have c: "urlopen_read ?e5 (tick fresh_world) ''http://a''
             = Inl (HTTPError 503 ''Service Unavailable'') \<and> (500::int) \<le> 503"
    by simp
  have d: "urlopen_read ?er (tick fresh_world) ''http://a'' = Inl connection_refused
           \<and> (\<forall>status reason. connection_refused \<noteq> HTTPError status reason)"
    by (simp add: connection_refused_def)
  have fe: "format_exc ?er connection_refused = format_exc demo_env connection_refused"
    by (simp add: format_exc_def)
  from a b c d fe
    request_outcome [of demo_env fresh_world "''http://a''"]
    request_outcome [of ?e4 fresh_world "''http://a''"]
    request_outcome [of ?e5 fresh_world "''http://a''"]
    request_outcome [of ?er fresh_world "''http://a''"]
  show ?thesis by metis
qed

section \<open>The TCP probe\<close>

lemma py_split_nonempty: "py_split c s \<noteq> []"
  by (induction s) (auto split: list.splits)


lemma py_split_single: "py_split c s = [a] \<longleftrightarrow> s = a \<and> c \<notin> set a"
proof (induction s arbitrary: a)
  case Nil
  then show ?case by auto
next
  case (Cons x xs)
  show ?case
  proof (cases "x = c")
    case True
    then show ?thesis using py_split_nonempty [of c xs] by auto
  next
    case False
    obtain p ps where pp: "py_split c xs = p # ps"
      using py_split_nonempty [of c xs] by (cases "py_split c xs") auto
    have "py_split c (x # xs) = [a] \<longleftrightarrow> ps = [] \<and> a = x # p"
      using False pp by auto
    also have "\<dots> \<longleftrightarrow> (\<exists>p'. py_split c xs = [p'] \<and> a = x # p')"
      using pp by auto
    also have "\<dots> \<longleftrightarrow> (\<exists>p'. xs = p' \<and> c \<notin> set p' \<and> a = x # p')"
      using Cons.IH by simp
    also have "\<dots> \<longleftrightarrow> x # xs = a \<and> c \<notin> set a"
      using False by auto
    finally show ?thesis .
  qed
qed

lemma py_split_pair: "py_split c s = [a, b] \<longleftrightarrow> s = a @ c # b \<and> c \<notin> set a \<and> c \<notin> set b"
proof (induction s arbitrary: a)
  case Nil
  then show ?case by auto
next
  case (Cons x xs)
  show ?case
  proof (cases "x = c")
    case True
    have "py_split c (x # xs) = [a, b] \<longleftrightarrow> a = [] \<and> py_split c xs = [b]"
      using True by auto
    also have "\<dots> \<longleftrightarrow> a = [] \<and> xs = b \<and> c \<notin> set b"
      by (simp add: py_split_single)
    also have "\<dots> \<longleftrightarrow> x # xs = a @ c # b \<and> c \<notin> set a \<and> c \<notin> set b"
      using True by (cases a) auto
    finally show ?thesis .
  next
    case False
    obtain p ps where pp: "py_split c xs = p # ps"
      using py_split_nonempty [of c xs] by (cases "py_split c xs") auto
    have "py_split c (x # xs) = [a, b] \<longleftrightarrow> ps = [b] \<and> a = x # p"
      using False pp by auto
    also have "\<dots> \<longleftrightarrow> (\<exists>p'. py_split c xs = [p', b] \<and> a = x # p')"
      using pp by auto
    also have "\<dots> \<longleftrightarrow> (\<exists>p'. xs = p' @ c # b \<and> c \<notin> set p' \<and> c \<notin> set b \<and> a = x # p')"
      using Cons.IH by simp
    also have "\<dots> \<longleftrightarrow> x # xs = a @ c # b \<and> c \<notin> set a \<and> c \<notin> set b"
      using False by (cases a) auto
    finally show ?thesis .
  qed
qed


lemma telnet_pair:
  "py_split (CHR '':'') url = [host, port] \<Longrightarrow>
   telnet env url w =
     (case py_int env port of
        Inl e \<Rightarrow> ((False, format_exc env e), w)
      | Inr p \<Rightarrow>
          (case tn_open env (tick w) host p 10 of
             Some e \<Rightarrow>
               ((False, format_exc env e),
                w\<lparr>tick := tick w + 1, netlog := netlog w @ [TnOpen host p 10]\<rparr>)
           | None \<Rightarrow>
               ((True, []),
                w\<lparr>tick := tick w + 1, netlog := netlog w @ [TnOpen host p 10, TnClose]\<rparr>)))"
  by (simp add: telnet_def Let_def split: sum.splits option.splits)

lemma telnet_not_pair:
  "length (py_split (CHR '':'') url) \<noteq> 2 \<Longrightarrow>
   telnet env url w =
     ((False, format_exc env (ValueError
        (if length (py_split (CHR '':'') url) < 2
         then ''not enough values to unpack (expected 2, got 1)''
         else ''too many values to unpack (expected 2)''))), w)"
  by (auto simp: telnet_def split: list.splits)


lemma length_two: "length xs = 2 \<Longrightarrow> \<exists>a b. xs = [a, b]"
  by (cases xs; cases "tl xs") auto

text \<open>
  C4 (as amended). When the descriptor has exactly one colon and the text after it is
  an integer literal, the TCP probe takes the text before the colon as host and the
  number as port, makes one connection attempt with a timeout of 10 seconds, and on
  success closes the connection and reports success with empty detail; a failed
  attempt is reported as failure with the formatted traceback as detail. For every
  other descriptor it attempts no connection and reports failure with a traceback.
\<close>

theorem telnet_outcome:
  "(\<forall>host port p.
       url = host @ CHR '':'' # port \<and> CHR '':'' \<notin> set host \<and> CHR '':'' \<notin> set port
       \<and> py_int env port = Inr p \<longrightarrow>
         (tn_open env (tick w) host p 10 = None \<longrightarrow>
            telnet env url w =
              ((True, []),
               w\<lparr>tick := tick w + 1, netlog := netlog w @ [TnOpen host p 10, TnClose]\<rparr>))
         \<and> (\<forall>e. tn_open env (tick w) host p 10 = Some e \<longrightarrow>
               telnet env url w =
                 ((False, format_exc env e),
                  w\<lparr>tick := tick w + 1, netlog := netlog w @ [TnOpen host p 10]\<rparr>)))
   \<and> ((\<forall>host port p.
          \<not> (url = host @ CHR '':'' # port \<and> CHR '':'' \<notin> set host \<and> CHR '':'' \<notin> set port
             \<and> py_int env port = Inr p)) \<longrightarrow>
         snd (telnet env url w) = w
         \<and> (\<exists>e. fst (telnet env url w) = (False, format_exc env e)))"
proof -
  have one: "telnet env url w =
              ((True, []),
               w\<lparr>tick := tick w + 1, netlog := netlog w @ [TnOpen host p 10, TnClose]\<rparr>)"
    if "url = host @ CHR '':'' # port \<and> CHR '':'' \<notin> set host \<and> CHR '':'' \<notin> set port
        \<and> py_int env port = Inr p" and "tn_open env (tick w) host p 10 = None"
    for host port p
  proof -
    from that have "py_split (CHR '':'') url = [host, port]"
      by (simp add: py_split_pair)
    from telnet_pair [OF this] that show ?thesis by simp
  qed
  have two: "telnet env url w =
                 ((False, format_exc env e),
                  w\<lparr>tick := tick w + 1, netlog := netlog w @ [TnOpen host p 10]\<rparr>)"
    if "url = host @ CHR '':'' # port \<and> CHR '':'' \<notin> set host \<and> CHR '':'' \<notin> set port
        \<and> py_int env port = Inr p" and "tn_open env (tick w) host p 10 = Some e"
    for host port p e
  proof -
    from that have "py_split (CHR '':'') url = [host, port]"
      by (simp add: py_split_pair)
    from telnet_pair [OF this] that show ?thesis by simp
  qed
  have three: "snd (telnet env url w) = w
         \<and> (\<exists>e. fst (telnet env url w) = (False, format_exc env e))"
    if n: "\<forall>host port p.
          \<not> (url = host @ CHR '':'' # port \<and> CHR '':'' \<notin> set host \<and> CHR '':'' \<notin> set port
             \<and> py_int env port = Inr p)"
  proof (cases "length (py_split (CHR '':'') url) = 2")
    case False
    from telnet_not_pair [OF this] show ?thesis by auto
  next
    case True
    then obtain host port where sp: "py_split (CHR '':'') url = [host, port]"
      using length_two by blast
    then have "url = host @ CHR '':'' # port \<and> CHR '':'' \<notin> set host \<and> CHR '':'' \<notin> set port"
      by (simp add: py_split_pair)
    with n have "\<forall>p. py_int env port \<noteq> Inr p" by blast
    then obtain e where "py_int env port = Inl e"
      by (cases "py_int env port") auto
    with telnet_pair [OF sp] show ?thesis by auto
  qed
  from one two three show ?thesis by blast
qed

theorem telnet_outcome_witness:
  "telnet demo_env ''localhost:8080'' fresh_world
     = ((True, []), fresh_world\<lparr>tick := 1, netlog := [TnOpen ''localhost'' 8080 10, TnClose]\<rparr>)
   \<and> telnet (demo_env\<lparr>tn_open := \<lambda>t h p timeout. Some connection_refused\<rparr>) ''localhost:8080'' fresh_world
     = ((False, format_exc demo_env connection_refused),
        fresh_world\<lparr>tick := 1, netlog := [TnOpen ''localhost'' 8080 10]\<rparr>)
   \<and> snd (telnet demo_env ''::1:8080'' fresh_world) = fresh_world
   \<and> (\<exists>e. fst (telnet demo_env ''::1:8080'' fresh_world) = (False, format_exc demo_env e))"
proof -
  let ?down = "demo_env\<lparr>tn_open := \<lambda>t h p timeout. Some connection_refused\<rparr>"
  have pi: "py_int demo_env ''8080'' = Inr 8080"
    by (simp add: demo_env_def demo_int_def is_ascii_digit_def decimal_def digit_val_def)
  have hp: "''localhost:8080'' = ''localhost'' @ CHR '':'' # ''8080''
            \<and> CHR '':'' \<notin> set ''localhost'' \<and> CHR '':'' \<notin> set ''8080''
            \<and> py_int demo_env ''8080'' = Inr 8080"
    using pi by simp
  have hp': "''localhost:8080'' = ''localhost'' @ CHR '':'' # ''8080''
            \<and> CHR '':'' \<notin> set ''localhost'' \<and> CHR '':'' \<notin> set ''8080''
            \<and> py_int ?down ''8080'' = Inr 8080"
    using pi by simp
  have up: "tn_open demo_env (tick fresh_world) ''localhost'' 8080 10 = None"
    by (simp add: demo_env_def)
  have down: "tn_open ?down (tick fresh_world) ''localhost'' 8080 10 = Some connection_refused"
    by simp
  note U = telnet_outcome [of "''localhost:8080''" demo_env fresh_world, THEN conjunct1,
      rule_format, OF hp, THEN conjunct1, rule_format, OF up]
  note D = telnet_outcome [of "''localhost:8080''" ?down fresh_world, THEN conjunct1,
      rule_format, OF hp', THEN conjunct2, rule_format, OF down]
  from U have a: "telnet demo_env ''localhost:8080'' fresh_world
     = ((True, []), fresh_world\<lparr>tick := 1, netlog := [TnOpen ''localhost'' 8080 10, TnClose]\<rparr>)"
    by (simp add: fresh_world_def)
  from D have b: "telnet ?down ''localhost:8080'' fresh_world
     = ((False, format_exc demo_env connection_refused),
        fresh_world\<lparr>tick := 1, netlog := [TnOpen ''localhost'' 8080 10]\<rparr>)"
    by (simp add: fresh_world_def format_exc_def)
  have parts: "py_split (CHR '':'') ''::1:8080'' = [[], [], ''1'', ''8080'']"
    by simp
  have no: "\<forall>host port p.
          \<not> (''::1:8080'' = host @ CHR '':'' # port \<and> CHR '':'' \<notin> set host \<and> CHR '':'' \<notin> set port
             \<and> py_int demo_env port = Inr p)"
  proof (intro allI notI)
    fix host port p
    assume "''::1:8080'' = host @ CHR '':'' # port \<and> CHR '':'' \<notin> set host \<and> CHR '':'' \<notin> set port
             \<and> py_int demo_env port = Inr p"
    then have "py_split (CHR '':'') ''::1:8080'' = [host, port]"
      using py_split_pair [of "CHR '':''" "''::1:8080''" host port] by blast
    with parts show False by simp
  qed
  note N = telnet_outcome [of "''::1:8080''" demo_env fresh_world, THEN conjunct2, THEN mp, OF no]
  from a b N show ?thesis by simp
qed

text \<open>
  The probe does not split at the last colon: for \<open>::1:8080\<close> the split at the last
  colon is host \<open>::1\<close> and port \<open>8080\<close>, and that connection would succeed, but the
  probe fails on unpacking four parts and never connects.
\<close>

theorem telnet_last_colon_counterexample:
  "split_at_last_colon ''::1:8080'' = (''::1'', ''8080'')
   \<and> tn_open demo_env 0 ''::1'' 8080 10 = None
   \<and> telnet demo_env ''::1:8080'' fresh_world
       = ((False, format_exc demo_env (ValueError ''too many values to unpack (expected 2)'')),
          fresh_world)"
  by (simp add: split_at_last_colon_def before_def telnet_def demo_env_def)

section \<open>Exceptions inside the probes\<close>


lemma find_url_type_ftp:
  "find_url_type accepting_checks ''ftp://x.com''
     = Inl (MonitoringException ''cannot determine type: ftp://x.com'')"
  by code_simp

lemma find_url_type_http_80: "find_url_type accepting_checks ''http:80'' = Inr ''urllib''"
  by code_simp

lemma find_url_type_localhost: "find_url_type accepting_checks ''localhost:8080'' = Inr ''telnet''"
  by code_simp






section \<open>Classification\<close>

subsection \<open>What the parser does on the two shapes of descriptor\<close>

text \<open>
  A host that starts with a letter and consists of scheme characters, followed by a colon
  and digits, parses into the host as scheme and the digits as path. A descriptor that
  starts with \<open>http://\<close> or \<open>https://\<close> has that scheme whenever the parser accepts it.
\<close>

lemma scheme_char_plain:
  "c \<in> scheme_chars \<Longrightarrow>
     c \<noteq> CHR '':'' \<and> c \<noteq> CHR ''/'' \<and> c \<noteq> CHR ''?'' \<and> c \<noteq> CHR ''#'' \<and> c \<noteq> CHR '';''
     \<and> c \<noteq> TAB \<and> c \<noteq> CR \<and> c \<noteq> NL"
  by (auto simp: scheme_chars_def TAB_def CR_def NL_def)

lemma digit_scheme_char: "c \<in> set ''0123456789'' \<Longrightarrow> c \<in> scheme_chars"
  by (auto simp: scheme_chars_def)

lemma ascii_alpha_above_space: "is_ascii_alpha c \<Longrightarrow> \<not> (of_char c :: nat) \<le> 32"
  by (auto simp: is_ascii_alpha_def)

lemma clean_url_plain:
  assumes "url \<noteq> []" "is_ascii_alpha (hd url)"
    and "\<forall>c \<in> set url. c \<noteq> TAB \<and> c \<noteq> CR \<and> c \<noteq> NL"
  shows "clean_url url = url"
proof -
  from assms(1,2) have "dropWhile (\<lambda>c. (of_char c :: nat) \<le> 32) url = url"
    by (cases url) (auto dest: ascii_alpha_above_space)
  moreover from assms(3) have "filter (\<lambda>c. c \<noteq> TAB \<and> c \<noteq> CR \<and> c \<noteq> NL) url = url"
    by (simp add: filter_id_conv)
  ultimately show ?thesis by (simp add: clean_url_def)
qed

lemma before_absent: "c \<notin> set s \<Longrightarrow> before c s = s"
  by (auto simp: before_def)

lemma before_append: "c \<notin> set a \<Longrightarrow> before c (a @ c # b) = a"
  by (induction a) (auto simp: before_def)

lemma digit_plain:
  "is_digit lib c \<Longrightarrow>
     c \<noteq> CHR '':'' \<and> c \<noteq> CHR ''/'' \<and> c \<noteq> CHR ''?'' \<and> c \<noteq> CHR ''#'' \<and> c \<noteq> CHR '';''
     \<and> c \<noteq> TAB \<and> c \<noteq> CR \<and> c \<noteq> NL"
  by (auto simp: is_digit_def is_ascii_digit_def TAB_def CR_def NL_def)

lemma urlparse_host_port:
  assumes host: "host \<noteq> []" "is_ascii_alpha (hd host)" "set host \<subseteq> scheme_chars"
    and port: "\<forall>c \<in> set port. is_digit lib c"
  shows "urlparse lib (host @ CHR '':'' # port)
           = Inr \<lparr>scheme = lower host, netloc = [], path = port\<rparr>"
proof -
  let ?url = "host @ CHR '':'' # port"
  have pc: "\<And>c. c \<in> set port \<Longrightarrow>
              c \<noteq> CHR '':'' \<and> c \<noteq> CHR ''/'' \<and> c \<noteq> CHR ''?'' \<and> c \<noteq> CHR ''#'' \<and> c \<noteq> CHR '';''
              \<and> c \<noteq> TAB \<and> c \<noteq> CR \<and> c \<noteq> NL"
    using port digit_plain by blast
  have hc: "\<And>c. c \<in> set host \<Longrightarrow> c \<in> scheme_chars"
    using host(3) by blast
  have "\<forall>c \<in> set ?url. c \<noteq> TAB \<and> c \<noteq> CR \<and> c \<noteq> NL"
    using pc hc scheme_char_plain by (auto simp: TAB_def CR_def NL_def)
  moreover have "?url \<noteq> []" "is_ascii_alpha (hd ?url)"
    using host by (cases host; simp)+
  ultimately have clean: "clean_url ?url = ?url"
    by (rule_tac clean_url_plain)
  have nocolon: "CHR '':'' \<notin> set host"
    using hc scheme_char_plain by blast
  have pre: "before (CHR '':'') ?url = host"
    using nocolon by (rule before_append)
  have "list_all (\<lambda>c. c \<in> scheme_chars) host"
    using hc by (simp add: list_all_iff)
  with pre host have ss: "split_scheme ?url = (lower host, port)"
    by (simp add: split_scheme_def Let_def)
  have noslash: "CHR ''/'' \<notin> set port" and nohash: "CHR ''#'' \<notin> set port"
    and noquest: "CHR ''?'' \<notin> set port" and nosemi: "CHR '';'' \<notin> set port"
    using pc by blast+
  have "take 2 port \<noteq> ''//''"
  proof
    assume "take 2 port = ''//''"
    then have "CHR ''/'' \<in> set (take 2 port)" by simp
    then have "CHR ''/'' \<in> set port" by (rule in_set_takeD)
    with noslash show False by simp
  qed
  moreover have "before (CHR ''?'') (before (CHR ''#'') port) = port"
    using nohash noquest by (simp add: before_absent)
  ultimately have "urlsplit lib ?url = Inr \<lparr>scheme = lower host, netloc = [], path = port\<rparr>"
    using clean ss by (simp add: urlsplit_def Let_def)
  then show ?thesis
    using nosemi by (simp add: urlparse_def)
qed

lemma find_url_type_host_port:
  assumes "host \<noteq> []" "is_ascii_alpha (hd host)" "set host \<subseteq> scheme_chars"
    and "lower host \<noteq> ''http''" "lower host \<noteq> ''https''"
    and "port \<noteq> []" "\<forall>c \<in> set port. is_digit lib c"
  shows "find_url_type lib (host @ CHR '':'' # port) = Inr ''telnet''"
proof -
  have "isdigit lib port"
    using assms(6,7) unfolding isdigit_def list_all_iff by blast
  moreover have "scheme \<lparr>scheme = lower host, netloc = [], path = port\<rparr> \<notin> {''http'', ''https''}"
    using assms(4,5) by simp
  ultimately show ?thesis
    unfolding find_url_type_def urlparse_host_port [OF assms(1,2,3,7)]
    by simp
qed

lemma clean_url_http:
  "clean_url (''http://'' @ rest) = ''http://'' @ filter (\<lambda>c. c \<noteq> TAB \<and> c \<noteq> CR \<and> c \<noteq> NL) rest"
  by (simp add: clean_url_def TAB_def CR_def NL_def)

lemma clean_url_https:
  "clean_url (''https://'' @ rest) = ''https://'' @ filter (\<lambda>c. c \<noteq> TAB \<and> c \<noteq> CR \<and> c \<noteq> NL) rest"
  by (simp add: clean_url_def TAB_def CR_def NL_def)

lemma split_scheme_http_prefix: "split_scheme (''http://'' @ r) = (''http'', ''//'' @ r)"
  by (simp add: split_scheme_def before_def is_ascii_alpha_def scheme_chars_def lower_def
      lower_char_def)

lemma split_scheme_https_prefix: "split_scheme (''https://'' @ r) = (''https'', ''//'' @ r)"
  by (simp add: split_scheme_def before_def is_ascii_alpha_def scheme_chars_def lower_def
      lower_char_def)

lemma urlsplit_scheme:
  "urlsplit lib url = Inr p \<Longrightarrow> scheme p = fst (split_scheme (clean_url url))"
  by (auto simp: urlsplit_def Let_def split: prod.splits if_splits option.splits)

lemma urlparse_scheme:
  "urlparse lib url = Inr p \<Longrightarrow> scheme p = fst (split_scheme (clean_url url))"
  by (auto simp: urlparse_def split: sum.splits if_splits dest: urlsplit_scheme)

lemma find_url_type_http_prefix:
  "find_url_type lib (''http://'' @ rest) = Inr ''urllib''
   \<or> (\<exists>e. urlparse lib (''http://'' @ rest) = Inl e \<and> find_url_type lib (''http://'' @ rest) = Inl e)"
proof (cases "urlparse lib (''http://'' @ rest)")
  case (Inl e)
  then show ?thesis by (simp add: find_url_type_def)
next
  case (Inr p)
  from urlparse_scheme [OF this] have "scheme p = ''http''"
    by (simp only: clean_url_http split_scheme_http_prefix fst_conv)
  with Inr show ?thesis by (simp add: find_url_type_def)
qed

lemma find_url_type_https_prefix:
  "find_url_type lib (''https://'' @ rest) = Inr ''urllib''
   \<or> (\<exists>e. urlparse lib (''https://'' @ rest) = Inl e \<and> find_url_type lib (''https://'' @ rest) = Inl e)"
proof (cases "urlparse lib (''https://'' @ rest)")
  case (Inl e)
  then show ?thesis by (simp add: find_url_type_def)
next
  case (Inr p)
  from urlparse_scheme [OF this] have "scheme p = ''https''"
    by (simp only: clean_url_https split_scheme_https_prefix fst_conv)
  with Inr show ?thesis by (simp add: find_url_type_def)
qed

subsection \<open>Examples\<close>

lemma urlparse_http_example:
  "urlparse accepting_checks ''http://example.com/health''
     = Inr \<lparr>scheme = ''http'', netloc = ''example.com'', path = ''/health''\<rparr>"
  by code_simp

lemma urlparse_localhost:
  "urlparse accepting_checks ''localhost:8080''
     = Inr \<lparr>scheme = ''localhost'', netloc = [], path = ''8080''\<rparr>"
  by code_simp

lemma urlparse_ftp:
  "urlparse accepting_checks ''ftp://x.com''
     = Inr \<lparr>scheme = ''ftp'', netloc = ''x.com'', path = []\<rparr>"
  by code_simp

lemma urlparse_open_bracket:
  "urlparse accepting_checks ''ftp://['' = Inl (ValueError ''Invalid IPv6 URL'')"
  by code_simp

text \<open>
  C2 (as amended). For every descriptor the URI parser accepts: when the parsed scheme is
  \<open>http\<close> or \<open>https\<close>, classification returns the HTTP kind; otherwise, when the
  parsed path is a non-empty string of digits, it returns the TCP kind; otherwise it
  fails with \<open>MonitoringException\<close> carrying the descriptor. When the parser itself
  raises, classification fails with the parser's exception. A digit is what
  \<open>str.isdigit\<close> accepts: an ASCII digit or a digit beyond ASCII. In particular a
  descriptor that starts with \<open>http://\<close> or \<open>https://\<close> is of the HTTP kind unless the
  parser raises, and a host and port is of the TCP kind when the host starts with an
  ASCII letter, consists of letters, digits, plus, minus and dot, is not \<open>http\<close> or
  \<open>https\<close>, and the port is a non-empty string of digits.
\<close>

theorem find_url_type_cases:
  "(\<forall>p. urlparse lib url = Inr p \<longrightarrow>
       (scheme p = ''http'' \<or> scheme p = ''https'' \<longrightarrow> find_url_type lib url = Inr ''urllib'')
     \<and> (scheme p \<noteq> ''http'' \<and> scheme p \<noteq> ''https'' \<and> path p \<noteq> []
          \<and> (\<forall>c \<in> set (path p). is_digit lib c) \<longrightarrow>
            find_url_type lib url = Inr ''telnet'')
     \<and> (scheme p \<noteq> ''http'' \<and> scheme p \<noteq> ''https''
          \<and> (path p = [] \<or> (\<exists>c \<in> set (path p). \<not> is_digit lib c)) \<longrightarrow>
            find_url_type lib url = Inl (MonitoringException (''cannot determine type: '' @ url))))
   \<and> (\<forall>e. urlparse lib url = Inl e \<longrightarrow> find_url_type lib url = Inl e)
   \<and> (\<forall>c. is_digit lib c \<longleftrightarrow>
          c \<in> set ''0123456789'' \<or> (128 \<le> (of_char c :: nat) \<and> unicode_isdigit lib c))
   \<and> (\<forall>rest. url = ''http://'' @ rest \<or> url = ''https://'' @ rest \<longrightarrow>
          find_url_type lib url = Inr ''urllib''
          \<or> (\<exists>e. urlparse lib url = Inl e \<and> find_url_type lib url = Inl e))
   \<and> (\<forall>host port.
          url = host @ CHR '':'' # port \<and> host \<noteq> [] \<and> is_ascii_alpha (hd host)
          \<and> set host \<subseteq> scheme_chars \<and> lower host \<noteq> ''http'' \<and> lower host \<noteq> ''https''
          \<and> port \<noteq> [] \<and> (\<forall>c \<in> set port. is_digit lib c) \<longrightarrow>
            find_url_type lib url = Inr ''telnet'')"
proof -
  have a: "\<forall>p. urlparse lib url = Inr p \<longrightarrow>
       (scheme p = ''http'' \<or> scheme p = ''https'' \<longrightarrow> find_url_type lib url = Inr ''urllib'')
     \<and> (scheme p \<noteq> ''http'' \<and> scheme p \<noteq> ''https'' \<and> path p \<noteq> []
          \<and> (\<forall>c \<in> set (path p). is_digit lib c) \<longrightarrow>
            find_url_type lib url = Inr ''telnet'')
     \<and> (scheme p \<noteq> ''http'' \<and> scheme p \<noteq> ''https''
          \<and> (path p = [] \<or> (\<exists>c \<in> set (path p). \<not> is_digit lib c)) \<longrightarrow>
            find_url_type lib url = Inl (MonitoringException (''cannot determine type: '' @ url)))"
    by (auto simp: find_url_type_def isdigit_def list_all_iff)
  have b: "\<forall>e. urlparse lib url = Inl e \<longrightarrow> find_url_type lib url = Inl e"
    by (simp add: find_url_type_def)
  have c: "\<forall>c. is_digit lib c \<longleftrightarrow>
          c \<in> set ''0123456789'' \<or> (128 \<le> (of_char c :: nat) \<and> unicode_isdigit lib c)"
    by (simp only: is_digit_def is_ascii_digit_def) blast
  have d: "\<forall>rest. url = ''http://'' @ rest \<or> url = ''https://'' @ rest \<longrightarrow>
          find_url_type lib url = Inr ''urllib''
          \<or> (\<exists>e. urlparse lib url = Inl e \<and> find_url_type lib url = Inl e)"
    using find_url_type_http_prefix [of lib] find_url_type_https_prefix [of lib] by blast
  have e: "\<forall>host port.
          url = host @ CHR '':'' # port \<and> host \<noteq> [] \<and> is_ascii_alpha (hd host)
          \<and> set host \<subseteq> scheme_chars \<and> lower host \<noteq> ''http'' \<and> lower host \<noteq> ''https''
          \<and> port \<noteq> [] \<and> (\<forall>c \<in> set port. is_digit lib c) \<longrightarrow>
            find_url_type lib url = Inr ''telnet''"
    using find_url_type_host_port [of _ _ lib] by blast
  from a b c d e show ?thesis by (intro conjI)
qed

theorem find_url_type_cases_witness:
  "find_url_type accepting_checks ''http://example.com/health'' = Inr ''urllib''
   \<and> find_url_type accepting_checks ''localhost:8080'' = Inr ''telnet''
   \<and> find_url_type accepting_checks ''ftp://x.com''
       = Inl (MonitoringException ''cannot determine type: ftp://x.com'')
   \<and> find_url_type accepting_checks ''ftp://['' = Inl (ValueError ''Invalid IPv6 URL'')
   \<and> find_url_type (accepting_checks\<lparr>unicode_isdigit := \<lambda>c. c = CHR 0xB2\<rparr>)
         (''localhost'' @ CHR '':'' # [CHR 0xB2]) = Inr ''telnet''"
proof -
  let ?ph = "\<lparr>scheme = ''http'', netloc = ''example.com'', path = ''/health''\<rparr>"
  let ?pl = "\<lparr>scheme = ''localhost'', netloc = [], path = ''8080''\<rparr>"
  let ?pf = "\<lparr>scheme = ''ftp'', netloc = ''x.com'', path = []\<rparr>"
  let ?lib = "accepting_checks\<lparr>unicode_isdigit := \<lambda>c. c = CHR 0xB2\<rparr>"
  note A = find_url_type_cases [of accepting_checks "''http://example.com/health''",
      THEN conjunct1, THEN spec, THEN mp, OF urlparse_http_example]
  note B = find_url_type_cases [of accepting_checks "''localhost:8080''",
      THEN conjunct1, THEN spec, THEN mp, OF urlparse_localhost]
  note C = find_url_type_cases [of accepting_checks "''ftp://x.com''",
      THEN conjunct1, THEN spec, THEN mp, OF urlparse_ftp]
  note D = find_url_type_cases [of accepting_checks "''ftp://[''",
      THEN conjunct2, THEN conjunct1, THEN spec, THEN mp, OF urlparse_open_bracket]
  note E = find_url_type_cases [of ?lib "''localhost'' @ CHR '':'' # [CHR 0xB2]",
      THEN conjunct2, THEN conjunct2, THEN conjunct2, THEN conjunct2, THEN spec, THEN spec,
      THEN mp]
  have "scheme ?ph = ''http'' \<or> scheme ?ph = ''https''"
    by simp
  with A have a: "find_url_type accepting_checks ''http://example.com/health'' = Inr ''urllib''"
    by blast
  have "scheme ?pl \<noteq> ''http'' \<and> scheme ?pl \<noteq> ''https'' \<and> path ?pl \<noteq> []
        \<and> (\<forall>c \<in> set (path ?pl). is_digit accepting_checks c)"
    by (simp add: is_digit_def is_ascii_digit_def)
  with B have b: "find_url_type accepting_checks ''localhost:8080'' = Inr ''telnet''"
    by blast
  have "scheme ?pf \<noteq> ''http'' \<and> scheme ?pf \<noteq> ''https''
        \<and> (path ?pf = [] \<or> (\<exists>c \<in> set (path ?pf). \<not> is_digit accepting_checks c))"
    by simp
  with C have c: "find_url_type accepting_checks ''ftp://x.com''
       = Inl (MonitoringException (''cannot determine type: '' @ ''ftp://x.com''))"
    by blast
  have "''localhost'' @ CHR '':'' # [CHR 0xB2] = ''localhost'' @ CHR '':'' # [CHR 0xB2]
        \<and> ''localhost'' \<noteq> [] \<and> is_ascii_alpha (hd ''localhost'')
        \<and> set ''localhost'' \<subseteq> scheme_chars \<and> lower ''localhost'' \<noteq> ''http''
        \<and> lower ''localhost'' \<noteq> ''https''
        \<and> [CHR 0xB2] \<noteq> [] \<and> (\<forall>c \<in> set [CHR 0xB2]. is_digit ?lib c)"
    by (simp add: is_ascii_alpha_def scheme_chars_def lower_def lower_char_def is_digit_def
        is_ascii_digit_def)
  from E [OF this] have e: "find_url_type ?lib (''localhost'' @ CHR '':'' # [CHR 0xB2]) = Inr ''telnet''" .
  from a b c D e show ?thesis by simp
qed

text \<open>
  The scheme decides first, and the parser can fail: \<open>http:80\<close> is a host and a numeric
  port, its parsed path is \<open>80\<close>, and it is classified as HTTP; \<open>ftp://[\<close> makes
  the parser raise \<open>ValueError\<close>, which is not the error of an unrecognised endpoint.
\<close>

theorem find_url_type_counterexample:
  "urlparse accepting_checks ''http:80'' = Inr \<lparr>scheme = ''http'', netloc = [], path = ''80''\<rparr>
   \<and> find_url_type accepting_checks ''http:80'' = Inr ''urllib''
   \<and> find_url_type accepting_checks ''ftp://['' = Inl (ValueError ''Invalid IPv6 URL'')"
  by code_simp

text \<open>
  A host that does not start with a letter is not taken as a scheme by the parser
  modelled here (CPython 3.11, where a scheme starts with an ASCII letter), so the whole
  descriptor stays in the path and an address with a port is not recognised.
\<close>

lemma find_url_type_address_port:
  "find_url_type accepting_checks ''127.0.0.1:8080''
     = Inl (MonitoringException ''cannot determine type: 127.0.0.1:8080'')"
  by code_simp

section \<open>The event store\<close>

lemma int_seconds_whole: "int_seconds (s * 1000000) = s"
proof -
  have "(- (s * 1000000)) div 1000000 = - s"
    using nonzero_mult_div_cancel_right [of "1000000::int" "- s"] by simp
  then show ?thesis by (simp add: int_seconds_def)
qed

lemma le_int_seconds: "t * 1000000 \<le> us \<Longrightarrow> t \<le> int_seconds us"
proof (cases "0 \<le> us")
  case True
  assume "t * 1000000 \<le> us"
  then have "(t * 1000000) div 1000000 \<le> us div 1000000"
    by (rule zdiv_mono1) simp
  with True show ?thesis by (simp add: int_seconds_def)
next
  case False
  assume "t * 1000000 \<le> us"
  then have "- us \<le> (- t) * 1000000" by simp
  then have "(- us) div 1000000 \<le> ((- t) * 1000000) div 1000000"
    by (rule zdiv_mono1) simp
  then have "(- us) div 1000000 \<le> - t" by simp
  with False show ?thesis by (simp add: int_seconds_def)
qed

lemma int_seconds_le: "us \<le> t * 1000000 \<Longrightarrow> int_seconds us \<le> t"
proof (cases "0 \<le> us")
  case True
  assume "us \<le> t * 1000000"
  then have "us div 1000000 \<le> (t * 1000000) div 1000000"
    by (rule zdiv_mono1) simp
  with True show ?thesis by (simp add: int_seconds_def)
next
  case False
  assume "us \<le> t * 1000000"
  then have "(- t) * 1000000 \<le> - us" by simp
  then have "((- t) * 1000000) div 1000000 \<le> (- us) div 1000000"
    by (rule zdiv_mono1) simp
  then have "- t \<le> (- us) div 1000000" by simp
  with False show ?thesis by (simp add: int_seconds_def)
qed

lemma int_seconds_less: "0 \<le> us \<Longrightarrow> us < t * 1000000 \<Longrightarrow> int_seconds us < t"
proof -
  assume nn: "0 \<le> us" and lt: "us < t * 1000000"
  have "us = (us div 1000000) * 1000000 + us mod 1000000"
    by simp
  moreover have "0 \<le> us mod 1000000"
    by simp
  ultimately have "(us div 1000000) * 1000000 \<le> us"
    by linarith
  with lt have "(us div 1000000) * 1000000 < t * 1000000" by simp
  then have "us div 1000000 < t" by simp
  with nn show ?thesis by (simp add: int_seconds_def)
qed


text \<open>
  C5 (as amended). The count query returns the number of stored events whose description
  equals the argument and whose timestamp \<open>t\<close> satisfies
  \<open>int(start.timestamp()) \<le> t \<le> int(end.timestamp())\<close>: the bounds are truncated to whole
  seconds, and both ends are included. When both truncated bounds equal the timestamp of
  a stored event, that event is counted. For bounds at whole seconds the window is
  \<open>start \<le> t \<le> end\<close>; for any bounds every event with \<open>start \<le> t \<le> end\<close> is among
  the counted ones.
\<close>

theorem query_event_count_window:
  "query_event_count env db d start end
     = card {i. i < length db \<and> description (db ! i) = d
                \<and> int_seconds (timestamp env start) \<le> ts (db ! i)
                \<and> ts (db ! i) \<le> int_seconds (timestamp env end)}
   \<and> (\<forall>i. i < length db \<and> int_seconds (timestamp env start) = ts (db ! i)
            \<and> int_seconds (timestamp env end) = ts (db ! i) \<longrightarrow>
          0 < query_event_count env db (description (db ! i)) start end)
   \<and> (\<forall>s e. timestamp env start = s * 1000000 \<and> timestamp env end = e * 1000000 \<longrightarrow>
          query_event_count env db d start end
            = card {i. i < length db \<and> description (db ! i) = d
                       \<and> s \<le> ts (db ! i) \<and> ts (db ! i) \<le> e})
   \<and> card {i. i < length db \<and> description (db ! i) = d
               \<and> timestamp env start \<le> ts (db ! i) * 1000000
               \<and> ts (db ! i) * 1000000 \<le> timestamp env end}
       \<le> query_event_count env db d start end"
proof -
  have count: "query_event_count env db d start end
     = card {i. i < length db \<and> description (db ! i) = d
                \<and> int_seconds (timestamp env start) \<le> ts (db ! i)
                \<and> ts (db ! i) \<le> int_seconds (timestamp env end)}" for d
    unfolding query_event_count_def length_filter_conv_card
    by (rule arg_cong [where f = card]) auto
  have boundary: "0 < query_event_count env db (description (db ! i)) start end"
    if "i < length db \<and> int_seconds (timestamp env start) = ts (db ! i)
            \<and> int_seconds (timestamp env end) = ts (db ! i)" for i
  proof -
    from that have "db ! i \<in> set (filter (\<lambda>r. description r = description (db ! i)
                          \<and> ts r \<ge> int_seconds (timestamp env start)
                          \<and> ts r \<le> int_seconds (timestamp env end)) db)"
      by simp
    then show ?thesis
      unfolding query_event_count_def by (simp only: length_pos_if_in_set)
  qed
  have whole: "query_event_count env db d start end
            = card {i. i < length db \<and> description (db ! i) = d
                       \<and> s \<le> ts (db ! i) \<and> ts (db ! i) \<le> e}"
    if "timestamp env start = s * 1000000 \<and> timestamp env end = e * 1000000" for s e
    using that by (simp add: count int_seconds_whole)
  have "{i. i < length db \<and> description (db ! i) = d
               \<and> timestamp env start \<le> ts (db ! i) * 1000000
               \<and> ts (db ! i) * 1000000 \<le> timestamp env end}
        \<subseteq> {i. i < length db \<and> description (db ! i) = d
                \<and> int_seconds (timestamp env start) \<le> ts (db ! i)
                \<and> ts (db ! i) \<le> int_seconds (timestamp env end)}"
    using int_seconds_le le_int_seconds by blast
  then have exact: "card {i. i < length db \<and> description (db ! i) = d
               \<and> timestamp env start \<le> ts (db ! i) * 1000000
               \<and> ts (db ! i) * 1000000 \<le> timestamp env end}
       \<le> query_event_count env db d start end"
    unfolding count by (rule card_mono [rotated]) simp
  from count boundary whole exact show ?thesis by blast
qed

theorem query_event_count_window_witness:
  "query_event_count demo_env three_events ''success http://a'' 100000000 100000000 = 1
   \<and> 0 < query_event_count demo_env three_events ''success http://a'' 100000000 100000000
   \<and> query_event_count demo_env three_events ''success http://a'' (100 * 1000000) (101 * 1000000)
       = card {i. i < length three_events \<and> description (three_events ! i) = ''success http://a''
                  \<and> 100 \<le> ts (three_events ! i) \<and> ts (three_events ! i) \<le> 101}"
proof -
  have ts: "int_seconds (timestamp demo_env 100000000) = 100"
    by (simp add: demo_env_def int_seconds_def)
  have "0 < length three_events
        \<and> int_seconds (timestamp demo_env 100000000) = ts (three_events ! 0)
        \<and> int_seconds (timestamp demo_env 100000000) = ts (three_events ! 0)"
    by (simp add: ts three_events_def)
  from query_event_count_window
         [where env = demo_env and db = three_events and d = "''success http://a''"
            and start = 100000000 and ?end = 100000000,
          THEN conjunct2, THEN conjunct1, THEN spec, THEN mp, OF this]
  have a: "0 < query_event_count demo_env three_events ''success http://a'' 100000000 100000000"
    by (simp add: three_events_def)
  have b: "query_event_count demo_env three_events ''success http://a'' 100000000 100000000 = 1"
    by (simp add: query_event_count_def ts three_events_def)
  have "timestamp demo_env (100 * 1000000) = 100 * 1000000
        \<and> timestamp demo_env (101 * 1000000) = 101 * 1000000"
    by (simp add: demo_env_def)
  from query_event_count_window
         [where env = demo_env and db = three_events and d = "''success http://a''"
            and start = "100 * 1000000" and ?end = "101 * 1000000",
          THEN conjunct2, THEN conjunct2, THEN conjunct1, THEN spec, THEN spec, THEN mp, OF this]
  have c: "query_event_count demo_env three_events ''success http://a'' (100 * 1000000) (101 * 1000000)
       = card {i. i < length three_events \<and> description (three_events ! i) = ''success http://a''
                  \<and> 100 \<le> ts (three_events ! i) \<and> ts (three_events ! i) \<le> 101}" .
  from a b c show ?thesis by blast
qed

text \<open>
  The window is not \<open>start \<le> t \<le> end\<close> when \<open>start\<close> has a fraction of a second: with a
  start at 100.5 seconds no stored event has \<open>start \<le> t\<close> at second 100, and the query
  still counts the one stored there.
\<close>

theorem query_event_count_truncation_counterexample:
  "query_event_count demo_env three_events ''failed http://a'' 100500000 200000000 = 1
   \<and> filter (\<lambda>r. description r = ''failed http://a''
                   \<and> timestamp demo_env 100500000 \<le> ts r * 1000000
                   \<and> ts r * 1000000 \<le> timestamp demo_env 200000000) three_events = []"
  by (simp add: query_event_count_def three_events_def demo_env_def int_seconds_def)

subsection \<open>Appending and counting\<close>

lemma log_event_stored:
  "db_insert env (tick w) (new_event env (tick w) d) = None \<Longrightarrow>
   log_event env d w
     = (Inr (), w\<lparr>tick := tick w + 1, events := events w @ [new_event env (tick w) d]\<rparr>)"
  by (simp add: log_event_def Let_def)

lemma log_event_refused:
  "db_insert env (tick w) (new_event env (tick w) d) = Some e \<Longrightarrow>
   log_event env d w = (Inl e, w\<lparr>tick := tick w + 1\<rparr>)"
  by (simp add: log_event_def Let_def)

lemma log_event_Inr:
  "log_event env d w = (Inr u, w1) \<Longrightarrow>
   w1 = w\<lparr>tick := tick w + 1, events := events w @ [new_event env (tick w) d]\<rparr>"
  by (auto simp: log_event_def Let_def split: option.splits)

lemma log_event_Inl:
  "log_event env d w = (Inl e, w1) \<Longrightarrow> w1 = w\<lparr>tick := tick w + 1\<rparr>"
  by (auto simp: log_event_def Let_def split: option.splits)

lemma append_events_stored:
  "append_events env d n w = (Inr (), w') \<Longrightarrow>
   events w' = events w @ map (\<lambda>i. new_event env (tick w + i) d) [0..<n]"
proof (induction n arbitrary: w)
  case 0
  then show ?case by simp
next
  case (Suc n)
  obtain r w1 where le: "log_event env d w = (r, w1)"
    by (cases "log_event env d w") auto
  show ?case
  proof (cases r)
    case (Inl e)
    with le Suc.prems show ?thesis by simp
  next
    case (Inr u)
    with le have w1: "w1 = w\<lparr>tick := tick w + 1, events := events w @ [new_event env (tick w) d]\<rparr>"
      using log_event_Inr by blast
    from le Inr Suc.prems have "append_events env d n w1 = (Inr (), w')"
      by simp
    from Suc.IH [OF this]
    have "events w' = events w1 @ map (\<lambda>i. new_event env (tick w1 + i) d) [0..<n]" .
    then have "events w'
                 = events w @ new_event env (tick w) d
                     # map (\<lambda>i. new_event env (tick w + Suc i) d) [0..<n]"
      by (simp add: w1)
    also have "new_event env (tick w) d # map (\<lambda>i. new_event env (tick w + Suc i) d) [0..<n]
                 = map (\<lambda>i. new_event env (tick w + i) d) [0..<Suc n]"
      by (simp only: map_upt_Suc) simp
    finally show ?thesis .
  qed
qed

lemma query_event_count_append:
  "query_event_count env (xs @ ys) d start end
     = query_event_count env xs d start end + query_event_count env ys d start end"
  by (simp add: query_event_count_def)

lemma query_event_count_all:
  "\<forall>r \<in> set ys. description r = d \<and> int_seconds (timestamp env start) \<le> ts r
                   \<and> ts r \<le> int_seconds (timestamp env end)
   \<Longrightarrow> query_event_count env ys d start end = length ys"
  by (simp add: query_event_count_def)

lemma query_event_count_none:
  "\<forall>r \<in> set ys. ts r < int_seconds (timestamp env start) \<or> int_seconds (timestamp env end) < ts r
   \<Longrightarrow> query_event_count env ys d start end = 0"
  by (auto simp: query_event_count_def filter_empty_conv)

text \<open>
  C6 (as amended). After \<open>n\<close> appends of one description that the store accepted, a
  count of that description over a window that covers the \<open>n\<close> timestamps is the count
  before the appends plus \<open>n\<close>: exactly \<open>n\<close> on a store that was empty. Over a window
  whose end, truncated to whole seconds, lies before the earliest of the \<open>n\<close> timestamps,
  or whose start, truncated to whole seconds, lies after the latest, the appends add
  nothing: the count is 0 on a store that was empty. A window that ends, at a time that
  is not negative, before the earliest timestamp is such a window.
\<close>

theorem log_event_count_round_trip:
  "append_events env d n w = (Inr (), w') \<longrightarrow>
     ((\<forall>i<n. timestamp env start \<le> int_seconds (time_time env (tick w + i)) * 1000000
             \<and> int_seconds (time_time env (tick w + i)) * 1000000 \<le> timestamp env end) \<longrightarrow>
        query_event_count env (events w') d start end
          = query_event_count env (events w) d start end + n
        \<and> (events w = [] \<longrightarrow> query_event_count env (events w') d start end = n))
     \<and> ((\<forall>i<n. int_seconds (timestamp env start) \<le> int_seconds (time_time env (tick w + i))
             \<and> int_seconds (time_time env (tick w + i)) \<le> int_seconds (timestamp env end)) \<longrightarrow>
        query_event_count env (events w') d start end
          = query_event_count env (events w) d start end + n
        \<and> (events w = [] \<longrightarrow> query_event_count env (events w') d start end = n))
     \<and> ((\<forall>i<n. int_seconds (timestamp env end) < int_seconds (time_time env (tick w + i)))
         \<or> (\<forall>i<n. int_seconds (time_time env (tick w + i)) < int_seconds (timestamp env start))
         \<or> (0 \<le> timestamp env end
             \<and> (\<forall>i<n. timestamp env end < int_seconds (time_time env (tick w + i)) * 1000000))
           \<longrightarrow>
        query_event_count env (events w') d start end
          = query_event_count env (events w) d start end
        \<and> (events w = [] \<longrightarrow> query_event_count env (events w') d start end = 0))"
proof
  assume ok: "append_events env d n w = (Inr (), w')"
  let ?new = "map (\<lambda>i. new_event env (tick w + i) d) [0..<n]"
  let ?lo = "int_seconds (timestamp env start)" and ?hi = "int_seconds (timestamp env end)"
  let ?stamp = "\<lambda>i. int_seconds (time_time env (tick w + i))"
  have split: "query_event_count env (events w') d start end
                 = query_event_count env (events w) d start end
                   + query_event_count env ?new d start end"
    by (simp only: append_events_stored [OF ok] query_event_count_append)
  have empty: "events w = [] \<Longrightarrow> query_event_count env (events w) d start end = 0"
    by (simp add: query_event_count_def)
  have inside: "query_event_count env ?new d start end = n"
    if "\<forall>i<n. ?lo \<le> ?stamp i \<and> ?stamp i \<le> ?hi"
  proof -
    from that have "\<forall>r \<in> set ?new. description r = d \<and> ?lo \<le> ts r \<and> ts r \<le> ?hi"
      by (auto simp: new_event_def)
    from query_event_count_all [OF this] show ?thesis by simp
  qed
  have exact_inside: "\<forall>i<n. ?lo \<le> ?stamp i \<and> ?stamp i \<le> ?hi"
    if "\<forall>i<n. timestamp env start \<le> ?stamp i * 1000000
             \<and> ?stamp i * 1000000 \<le> timestamp env end"
    using that int_seconds_le le_int_seconds by blast
  have outside: "query_event_count env ?new d start end = 0"
    if "(\<forall>i<n. ?hi < ?stamp i) \<or> (\<forall>i<n. ?stamp i < ?lo)"
  proof -
    from that have "\<forall>r \<in> set ?new. ts r < ?lo \<or> ?hi < ts r"
      by (auto simp: new_event_def)
    from query_event_count_none [OF this] show ?thesis .
  qed
  have exact_before: "\<forall>i<n. ?hi < ?stamp i"
    if "0 \<le> timestamp env end \<and> (\<forall>i<n. timestamp env end < ?stamp i * 1000000)"
    using that int_seconds_less by blast
  show "((\<forall>i<n. timestamp env start \<le> ?stamp i * 1000000
             \<and> ?stamp i * 1000000 \<le> timestamp env end) \<longrightarrow>
        query_event_count env (events w') d start end
          = query_event_count env (events w) d start end + n
        \<and> (events w = [] \<longrightarrow> query_event_count env (events w') d start end = n))
     \<and> ((\<forall>i<n. ?lo \<le> ?stamp i \<and> ?stamp i \<le> ?hi) \<longrightarrow>
        query_event_count env (events w') d start end
          = query_event_count env (events w) d start end + n
        \<and> (events w = [] \<longrightarrow> query_event_count env (events w') d start end = n))
     \<and> ((\<forall>i<n. ?hi < ?stamp i) \<or> (\<forall>i<n. ?stamp i < ?lo)
         \<or> (0 \<le> timestamp env end
             \<and> (\<forall>i<n. timestamp env end < ?stamp i * 1000000))
           \<longrightarrow>
        query_event_count env (events w') d start end
          = query_event_count env (events w) d start end
        \<and> (events w = [] \<longrightarrow> query_event_count env (events w') d start end = 0))"
  proof (intro conjI impI)
    assume "\<forall>i<n. timestamp env start \<le> ?stamp i * 1000000
             \<and> ?stamp i * 1000000 \<le> timestamp env end"
    note c = exact_inside [OF this]
    show "query_event_count env (events w') d start end
            = query_event_count env (events w) d start end + n"
      using split inside [OF c] by simp
    show "query_event_count env (events w') d start end = n" if "events w = []"
      using split inside [OF c] empty [OF that] by simp
  next
    assume c: "\<forall>i<n. ?lo \<le> ?stamp i \<and> ?stamp i \<le> ?hi"
    show "query_event_count env (events w') d start end
            = query_event_count env (events w) d start end + n"
      using split inside [OF c] by simp
    show "query_event_count env (events w') d start end = n" if "events w = []"
      using split inside [OF c] empty [OF that] by simp
  next
    assume "(\<forall>i<n. ?hi < ?stamp i) \<or> (\<forall>i<n. ?stamp i < ?lo)
         \<or> (0 \<le> timestamp env end
             \<and> (\<forall>i<n. timestamp env end < ?stamp i * 1000000))"
    with exact_before have o: "(\<forall>i<n. ?hi < ?stamp i) \<or> (\<forall>i<n. ?stamp i < ?lo)"
      by blast
    show "query_event_count env (events w') d start end
            = query_event_count env (events w) d start end"
      using split outside [OF o] by simp
    show "query_event_count env (events w') d start end = 0" if "events w = []"
      using split outside [OF o] empty [OF that] by simp
  qed
qed

lemma demo_stamp: "int_seconds (time_time demo_env t) = 1000 + int t"
  by (simp add: demo_env_def int_seconds_def)

lemma demo_timestamp: "int_seconds (timestamp demo_env (s * 1000000)) = s"
  using int_seconds_whole [of s] by (simp add: demo_env_def)

lemma demo_appends:
  "fst (append_events demo_env ''success http://a'' 3 fresh_world) = Inr ()"
  by code_simp

theorem log_event_count_round_trip_witness:
  "query_event_count demo_env
     (events (snd (append_events demo_env ''success http://a'' 3 fresh_world)))
     ''success http://a'' (1000 * 1000000) (1002 * 1000000) = 3
   \<and> query_event_count demo_env
     (events (snd (append_events demo_env ''success http://a'' 3 fresh_world)))
     ''success http://a'' (0 * 1000000) (999 * 1000000) = 0
   \<and> query_event_count demo_env
     (events (snd (append_events demo_env ''success http://a'' 3 fresh_world)))
     ''success http://a'' (2000 * 1000000) (3000 * 1000000) = 0"
proof -
  let ?w' = "snd (append_events demo_env ''success http://a'' 3 fresh_world)"
  have ok: "append_events demo_env ''success http://a'' 3 fresh_world = (Inr (), ?w')"
    using demo_appends by (metis prod.collapse)
  have e: "events fresh_world = []" and t: "tick fresh_world = 0"
    by (simp_all add: fresh_world_def)
  have "\<forall>i<3. int_seconds (timestamp demo_env (1000 * 1000000))
                  \<le> int_seconds (time_time demo_env (tick fresh_world + i))
             \<and> int_seconds (time_time demo_env (tick fresh_world + i))
                  \<le> int_seconds (timestamp demo_env (1002 * 1000000))"
    unfolding demo_stamp demo_timestamp t by auto
  with log_event_count_round_trip
         [where n = 3 and env = demo_env and w = fresh_world and d = "''success http://a''"
            and w' = ?w' and start = "1000 * 1000000" and ?end = "1002 * 1000000", THEN mp, OF ok] e
  have a: "query_event_count demo_env (events ?w')
     ''success http://a'' (1000 * 1000000) (1002 * 1000000) = 3"
    by blast
  have "\<forall>i<3. int_seconds (timestamp demo_env (999 * 1000000))
                  < int_seconds (time_time demo_env (tick fresh_world + i))"
    unfolding demo_stamp demo_timestamp t by auto
  with log_event_count_round_trip
         [where n = 3 and env = demo_env and w = fresh_world and d = "''success http://a''"
            and w' = ?w' and start = "0 * 1000000" and ?end = "999 * 1000000", THEN mp, OF ok] e
  have b: "query_event_count demo_env (events ?w')
     ''success http://a'' (0 * 1000000) (999 * 1000000) = 0"
    by blast
  have "\<forall>i<3. int_seconds (time_time demo_env (tick fresh_world + i))
                  < int_seconds (timestamp demo_env (2000 * 1000000))"
    unfolding demo_stamp demo_timestamp t by auto
  with log_event_count_round_trip
         [where n = 3 and env = demo_env and w = fresh_world and d = "''success http://a''"
            and w' = ?w' and start = "2000 * 1000000" and ?end = "3000 * 1000000", THEN mp, OF ok] e
  have c: "query_event_count demo_env (events ?w')
     ''success http://a'' (2000 * 1000000) (3000 * 1000000) = 0"
    by blast
  from a b c show ?thesis by blast
qed

text \<open>
  A window that starts after the latest timestamp can still count an event: after three
  appends at seconds 1000, 1001 and 1002 the window from 1002.5 to 2000 seconds counts
  one. And on a store that already holds two events of the description, one append
  gives a count of three.
\<close>

theorem round_trip_counterexample:
  "fst (append_events demo_env ''success http://a'' 3 fresh_world) = Inr ()
   \<and> map ts (events (snd (append_events demo_env ''success http://a'' 3 fresh_world)))
       = [1000, 1001, 1002]
   \<and> 1002 * 1000000 < timestamp demo_env 1002500000
   \<and> query_event_count demo_env
        (events (snd (append_events demo_env ''success http://a'' 3 fresh_world)))
        ''success http://a'' 1002500000 2000000000 = 1
   \<and> fst (append_events demo_env ''success http://a'' 1 (fresh_world\<lparr>events := three_events\<rparr>))
       = Inr ()
   \<and> query_event_count demo_env
        (events (snd (append_events demo_env ''success http://a'' 1
                        (fresh_world\<lparr>events := three_events\<rparr>))))
        ''success http://a'' 0 2000000000 = 3"
  by code_simp

section \<open>Regular mode\<close>

lemma telnet_store: "events (snd (telnet env url w)) = events w \<and> outbox (snd (telnet env url w)) = outbox w"
proof (cases "length (py_split (CHR '':'') url) = 2")
  case False
  from telnet_not_pair [OF this] show ?thesis by simp
next
  case True
  then obtain host port where sp: "py_split (CHR '':'') url = [host, port]"
    using length_two by blast
  from telnet_pair [OF sp] show ?thesis
    by (simp split: sum.splits option.splits)
qed

lemma request_store:
  "events (snd (request env url w)) = events w \<and> outbox (snd (request env url w)) = outbox w"
  by (simp add: request_def Let_def split: sum.splits exn.splits)

lemma run_url_store:
  assumes "run_url env url w = (r, w1)"
  shows "events w1 = events w \<and> outbox w1 = outbox w"
proof (cases "find_url_type (urllib env) url")
  case (Inl e)
  with assms show ?thesis by (simp add: run_url_def)
next
  case (Inr url_type)
  consider "url_type = ''urllib''" | "url_type \<noteq> ''urllib''" "url_type = ''telnet''"
    | "url_type \<noteq> ''urllib''" "url_type \<noteq> ''telnet''"
    by blast
  then show ?thesis
  proof cases
    case 1
    with Inr assms have "w1 = snd (request env url w)"
      by (auto simp: run_url_def split: prod.splits)
    then show ?thesis by (simp add: request_store)
  next
    case 2
    with Inr assms have "w1 = snd (telnet env url w)"
      by (auto simp: run_url_def split: prod.splits)
    then show ?thesis by (simp add: telnet_store)
  next
    case 3
    with Inr assms show ?thesis by (simp add: run_url_def)
  qed
qed

lemma send_notification_ok:
  "send_message env (tick w) \<lparr>subject = s, content = m, from_addr = f, to_addr = t\<rparr> = None \<Longrightarrow>
   send_notification env s m f t w
     = (Inr (), w\<lparr>tick := tick w + 1,
                   outbox := outbox w @ [\<lparr>subject = s, content = m, from_addr = f, to_addr = t\<rparr>]\<rparr>)"
  by (simp add: send_notification_def Let_def)

lemma send_notification_failed:
  "send_message env (tick w) \<lparr>subject = s, content = m, from_addr = f, to_addr = t\<rparr> = Some e \<Longrightarrow>
   send_notification env s m f t w = (Inl e, w\<lparr>tick := tick w + 1\<rparr>)"
  by (simp add: send_notification_def Let_def)

lemma body_classification_failed:
  "run_url env url w = (Inl e, w1) \<Longrightarrow> run_regular_body env cfg url w = (Inl e, w1)"
  by (simp add: run_regular_body_def)

lemma body_success:
  "run_url env url w = (Inr (True, context), w1) \<Longrightarrow>
   run_regular_body env cfg url w = log_event env (''success '' @ url) w1"
  by (simp add: run_regular_body_def)

lemma body_failed_sent:
  "run_url env url w = (Inr (False, context), w1) \<Longrightarrow>
   send_message env (tick w1)
     \<lparr>subject = ''[URGENT] Service failed for url '' @ url, content = build_message url context,
      from_addr = from_email cfg, to_addr = to_email cfg\<rparr> = None \<Longrightarrow>
   run_regular_body env cfg url w
     = log_event env (''failed '' @ url)
         (w1\<lparr>tick := tick w1 + 1,
             outbox := outbox w1 @
               [\<lparr>subject = ''[URGENT] Service failed for url '' @ url,
                 content = build_message url context,
                 from_addr = from_email cfg, to_addr = to_email cfg\<rparr>]\<rparr>)"
  by (simp add: run_regular_body_def send_notification_ok)

lemma body_failed_unsent:
  "run_url env url w = (Inr (False, context), w1) \<Longrightarrow>
   send_message env (tick w1)
     \<lparr>subject = ''[URGENT] Service failed for url '' @ url, content = build_message url context,
      from_addr = from_email cfg, to_addr = to_email cfg\<rparr> = Some e \<Longrightarrow>
   run_regular_body env cfg url w = (Inl e, w1\<lparr>tick := tick w1 + 1\<rparr>)"
  by (simp add: run_regular_body_def send_notification_failed)


lemma log_event_step:
  "(\<exists>e w1. log_event env d w = (Inl e, w1) \<and> events w1 = events w \<and> outbox w1 = outbox w)
   \<or> (\<exists>w1. log_event env d w = (Inr (), w1)
             \<and> events w1 = events w @ [new_event env (tick w) d] \<and> outbox w1 = outbox w)"
proof (cases "db_insert env (tick w) (new_event env (tick w) d)")
  case None
  from log_event_stored [OF this] show ?thesis by simp
next
  case (Some e)
  from log_event_refused [OF this] show ?thesis by simp
qed

lemma body_step:
  "(\<exists>e w1. run_regular_body env cfg u w = (Inl e, w1) \<and> events w1 = events w)
   \<or> (\<exists>w1 ev ok sent.
         run_regular_body env cfg u w = (Inr (), w1) \<and> events w1 = events w @ [ev]
         \<and> description ev = event_label ok u \<and> outbox w1 = outbox w @ sent
         \<and> map subject sent = (if ok then [] else [urgent_subject u]))"
proof -
  obtain r w1 where ru: "run_url env u w = (r, w1)"
    by (cases "run_url env u w") auto
  from run_url_store [OF ru] have st: "events w1 = events w" "outbox w1 = outbox w"
    by simp_all
  show ?thesis
  proof (cases r)
    case (Inl e)
    with ru body_classification_failed [of env u w e w1 cfg] st show ?thesis by auto
  next
    case (Inr outcome)
    obtain status ctx where oc: "outcome = (status, ctx)"
      by (cases outcome) auto
    show ?thesis
    proof (cases status)
      case True
      with ru Inr oc have b: "run_regular_body env cfg u w = log_event env (''success '' @ u) w1"
        by (simp add: body_success)
      from log_event_step [of env "''success '' @ u" w1] show ?thesis
      proof (elim disjE exE conjE)
        fix e w2
        assume "log_event env (''success '' @ u) w1 = (Inl e, w2)" "events w2 = events w1"
        with b st show ?thesis by auto
      next
        fix w2
        assume l: "log_event env (''success '' @ u) w1 = (Inr (), w2)"
          and ev: "events w2 = events w1 @ [new_event env (tick w1) (''success '' @ u)]"
          and ob: "outbox w2 = outbox w1"
        have "run_regular_body env cfg u w = (Inr (), w2)"
          using b l by simp
        moreover have "events w2 = events w @ [new_event env (tick w1) (''success '' @ u)]"
          using ev st by simp
        moreover have "description (new_event env (tick w1) (''success '' @ u)) = event_label True u"
          by (simp add: new_event_def event_label_def)
        moreover have "outbox w2 = outbox w @ []"
          using ob st by simp
        moreover have "map subject ([] :: email list) = (if True then [] else [urgent_subject u])"
          by simp
        ultimately show ?thesis by blast
      qed
    next
      case False
      let ?msg = "\<lparr>subject = ''[URGENT] Service failed for url '' @ u,
                    content = build_message u ctx,
                    from_addr = from_email cfg, to_addr = to_email cfg\<rparr>"
      from ru Inr oc False have ru': "run_url env u w = (Inr (False, ctx), w1)"
        by simp
      show ?thesis
      proof (cases "send_message env (tick w1) ?msg")
        case (Some e)
        from body_failed_unsent [OF ru' Some] st show ?thesis by auto
      next
        case None
        let ?w2 = "w1\<lparr>tick := tick w1 + 1, outbox := outbox w1 @ [?msg]\<rparr>"
        from body_failed_sent [OF ru' None]
        have b: "run_regular_body env cfg u w = log_event env (''failed '' @ u) ?w2" .
        from log_event_step [of env "''failed '' @ u" ?w2] show ?thesis
        proof (elim disjE exE conjE)
          fix e w3
          assume "log_event env (''failed '' @ u) ?w2 = (Inl e, w3)" "events w3 = events ?w2"
          with b st show ?thesis by auto
        next
          fix w3
          assume l: "log_event env (''failed '' @ u) ?w2 = (Inr (), w3)"
            and ev: "events w3 = events ?w2 @ [new_event env (tick ?w2) (''failed '' @ u)]"
            and ob: "outbox w3 = outbox ?w2"
          have "run_regular_body env cfg u w = (Inr (), w3)"
            using b l by simp
          moreover have "events w3 = events w @ [new_event env (tick ?w2) (''failed '' @ u)]"
            using ev st by simp
          moreover have "description (new_event env (tick ?w2) (''failed '' @ u))
                           = event_label False u"
            by (simp add: new_event_def event_label_def)
          moreover have "outbox w3 = outbox w @ [?msg]"
            using ob st by simp
          moreover have "map subject [?msg] = (if False then [] else [urgent_subject u])"
            by (simp add: urgent_subject_def)
          ultimately show ?thesis by blast
        qed
      qed
    qed
  qed
qed

lemma loop_trace:
  "\<exists>oks new.
      length oks \<le> length us
      \<and> events (snd (run_regular_loop env cfg us w)) = events w @ new
      \<and> map description new = map2 event_label oks us
      \<and> (fst (run_regular_loop env cfg us w) = Inr () \<longrightarrow>
           length oks = length us
           \<and> (\<exists>sent. outbox (snd (run_regular_loop env cfg us w)) = outbox w @ sent
                 \<and> map subject sent
                     = map urgent_subject (map snd (filter (\<lambda>x. \<not> fst x) (zip oks us)))))
      \<and> ((\<exists>e. fst (run_regular_loop env cfg us w) = Inl e) \<longrightarrow> length oks < length us)"
proof (induction us arbitrary: w)
  case Nil
  have "length ([] :: bool list) \<le> length ([] :: string list)
      \<and> events (snd (run_regular_loop env cfg [] w)) = events w @ []
      \<and> map description [] = map2 event_label [] []
      \<and> (fst (run_regular_loop env cfg [] w) = Inr () \<longrightarrow>
           length ([] :: bool list) = length ([] :: string list)
           \<and> (\<exists>sent. outbox (snd (run_regular_loop env cfg [] w)) = outbox w @ sent
                 \<and> map subject sent
                     = map urgent_subject (map snd (filter (\<lambda>x. \<not> fst x) (zip [] [])))))
      \<and> ((\<exists>e. fst (run_regular_loop env cfg [] w) = Inl e)
           \<longrightarrow> length ([] :: bool list) < length ([] :: string list))"
    by simp
  then show ?case by blast
next
  case (Cons u us)
  from body_step [of env cfg u w] show ?case
  proof (elim disjE exE conjE)
    fix e w1
    assume b: "run_regular_body env cfg u w = (Inl e, w1)"
      and st: "events w1 = events w"
    then have r: "run_regular_loop env cfg (u # us) w = (Inl e, w1)"
      by simp
    have "length ([] :: bool list) \<le> length (u # us)
      \<and> events (snd (run_regular_loop env cfg (u # us) w)) = events w @ []
      \<and> map description [] = map2 event_label [] (u # us)
      \<and> (fst (run_regular_loop env cfg (u # us) w) = Inr () \<longrightarrow>
           length ([] :: bool list) = length (u # us)
           \<and> (\<exists>sent. outbox (snd (run_regular_loop env cfg (u # us) w)) = outbox w @ sent
                 \<and> map subject sent
                     = map urgent_subject (map snd (filter (\<lambda>x. \<not> fst x) (zip [] (u # us))))))
      \<and> ((\<exists>e. fst (run_regular_loop env cfg (u # us) w) = Inl e)
           \<longrightarrow> length ([] :: bool list) < length (u # us))"
      unfolding r using st by simp
    then show ?thesis by blast
  next
    fix w1 ev ok sent
    assume b: "run_regular_body env cfg u w = (Inr (), w1)"
      and ev: "events w1 = events w @ [ev]" "description ev = event_label ok u"
      and ob: "outbox w1 = outbox w @ sent"
        "map subject sent = (if ok then [] else [urgent_subject u])"
    from b have r: "run_regular_loop env cfg (u # us) w = run_regular_loop env cfg us w1"
      by simp
    from Cons.IH [of w1] obtain oks new where ih:
      "length oks \<le> length us"
      "events (snd (run_regular_loop env cfg us w1)) = events w1 @ new"
      "map description new = map2 event_label oks us"
      "fst (run_regular_loop env cfg us w1) = Inr () \<longrightarrow>
           length oks = length us
           \<and> (\<exists>sent. outbox (snd (run_regular_loop env cfg us w1)) = outbox w1 @ sent
                 \<and> map subject sent
                     = map urgent_subject (map snd (filter (\<lambda>x. \<not> fst x) (zip oks us))))"
      "(\<exists>e. fst (run_regular_loop env cfg us w1) = Inl e) \<longrightarrow> length oks < length us"
      by blast
    have finished: "length (ok # oks) = length (u # us)
           \<and> (\<exists>sent. outbox (snd (run_regular_loop env cfg (u # us) w)) = outbox w @ sent
                 \<and> map subject sent
                     = map urgent_subject
                         (map snd (filter (\<lambda>x. \<not> fst x) (zip (ok # oks) (u # us)))))"
      if f: "fst (run_regular_loop env cfg (u # us) w) = Inr ()"
    proof -
      from f r have "fst (run_regular_loop env cfg us w1) = Inr ()" by simp
      with ih(4) obtain sent' where
        l: "length oks = length us"
        and s: "outbox (snd (run_regular_loop env cfg us w1)) = outbox w1 @ sent'"
          "map subject sent'
             = map urgent_subject (map snd (filter (\<lambda>x. \<not> fst x) (zip oks us)))"
        by blast
      have "outbox (snd (run_regular_loop env cfg (u # us) w)) = outbox w @ (sent @ sent')"
        unfolding r using s(1) ob(1) by simp
      moreover have "map subject (sent @ sent')
                       = map urgent_subject
                           (map snd (filter (\<lambda>x. \<not> fst x) (zip (ok # oks) (u # us))))"
        using s(2) ob(2) by simp
      ultimately show ?thesis using l by auto
    qed
    have "length (ok # oks) \<le> length (u # us)
      \<and> events (snd (run_regular_loop env cfg (u # us) w)) = events w @ (ev # new)
      \<and> map description (ev # new) = map2 event_label (ok # oks) (u # us)
      \<and> ((\<exists>e. fst (run_regular_loop env cfg (u # us) w) = Inl e)
           \<longrightarrow> length (ok # oks) < length (u # us))"
      unfolding r using ih(1,2,3,5) ev by simp
    with finished show ?thesis by blast
  qed
qed

lemma body_ignores_urls:
  "run_regular_body env (cfg\<lparr>urls := l\<rparr>) u w = run_regular_body env cfg u w"
  by (simp add: run_regular_body_def split: prod.splits sum.splits)

lemma loop_ignores_urls:
  "run_regular_loop env (cfg\<lparr>urls := l\<rparr>) us w = run_regular_loop env cfg us w"
  by (induction us arbitrary: w) (simp_all add: body_ignores_urls split: prod.splits sum.splits)

lemma loop_append:
  "run_regular_loop env cfg (xs @ ys) w
     = (case run_regular_loop env cfg xs w of
          (Inl e, w1) \<Rightarrow> (Inl e, w1)
        | (Inr u, w1) \<Rightarrow> run_regular_loop env cfg ys w1)"
  by (induction xs arbitrary: w) (simp_all split: prod.splits sum.splits)

lemma run_regular_urls:
  "run_regular env (cfg\<lparr>urls := us\<rparr>) w = run_regular_loop env cfg us w"
  by (simp add: run_regular_def loop_ignores_urls)

lemma run_url_classification_failed:
  "find_url_type (urllib env) url = Inl e \<Longrightarrow> run_url env url w = (Inl e, w)"
  by (simp add: run_url_def)

lemma loop_completed_events:
  assumes "run_regular_loop env cfg us w = (Inr (), w1)"
  shows "\<exists>new. events w1 = events w @ new \<and> length new = length us"
proof -
  from loop_trace [of us env cfg w] assms obtain oks new where
    ev: "events w1 = events w @ new" and d: "map description new = map2 event_label oks us"
    and l: "length oks = length us"
    by auto
  from d have "length (map description new) = length (map2 event_label oks us)"
    by simp
  with l have "length new = length us"
    by simp
  with ev show ?thesis by blast
qed

subsection \<open>Runs of the examples\<close>

lemma demo_config_urls: "(demo_config us)\<lparr>urls := vs\<rparr> = demo_config vs"
  by (simp add: demo_config_def)

lemma scenario_a_result:
  "fst (run_regular tcp_down_env (demo_config [''http://a'', ''localhost:1'']) fresh_world) = Inr ()"
  by code_simp

lemma scenario_a_events:
  "map description
     (events (snd (run_regular tcp_down_env (demo_config [''http://a'', ''localhost:1''])
                    fresh_world)))
     = [''success http://a'', ''failed localhost:1'']"
  by code_simp

lemma scenario_a_outbox:
  "map subject
     (outbox (snd (run_regular tcp_down_env (demo_config [''http://a'', ''localhost:1''])
                    fresh_world)))
     = [''[URGENT] Service failed for url localhost:1'']"
  by code_simp

lemma probe_http_a:
  "fst (run_url tcp_down_env ''http://a'' fresh_world) = Inr (True, [])"
  by code_simp

lemma probe_localhost_1:
  "fst (run_url tcp_down_env ''localhost:1'' fresh_world)
     = Inr (False, format_exc tcp_down_env connection_refused)"
  by code_simp

lemma scenario_c_prefix:
  "fst (run_regular demo_env (demo_config [''http://a'']) fresh_world) = Inr ()"
  by code_simp

lemma scenario_c_prefix_events:
  "map description (events (snd (run_regular demo_env (demo_config [''http://a'']) fresh_world)))
     = [''success http://a'']"
  by code_simp

lemma scenario_c_prefix_netlog:
  "netlog (snd (run_regular demo_env (demo_config [''http://a'']) fresh_world))
     = [UrlOpen ''http://a'']"
  by code_simp

lemma mail_down_prefix:
  "fst (run_regular mail_down_env (demo_config [''http://a'']) fresh_world) = Inr ()"
  by code_simp

lemma mail_down_prefix_events:
  "map description
     (events (snd (run_regular mail_down_env (demo_config [''http://a'']) fresh_world)))
     = [''success http://a'']"
  by code_simp

lemma mail_down_probe:
  "fst (run_url mail_down_env ''localhost:1''
          (snd (run_regular mail_down_env (demo_config [''http://a'']) fresh_world)))
     = Inr (False, format_exc mail_down_env connection_refused)"
  by code_simp

subsection \<open>One event for each processed endpoint\<close>

text \<open>
  C1 (as amended). In regular mode, an endpoint whose probe completes gets exactly one
  event when its failure notification, if one is due, is delivered and the store accepts
  the append: after a successful probe an event \<open>success {endpoint}\<close> is appended and no
  notification is sent; after a failed probe the notification with subject
  \<open>[URGENT] Service failed for url {endpoint}\<close> is sent and an event
  \<open>failed {endpoint}\<close> is appended. Over a whole run the appended events are, in order,
  one for each endpoint processed; an aborted run has appended nothing for the endpoint
  that aborted it or for those after it; and a run that returns normally has processed
  every configured endpoint and sent exactly the notifications of the failed ones.
\<close>

theorem run_regular_one_event_each:
  "(\<forall>status ctx w1. run_url env url w = (Inr (status, ctx), w1) \<longrightarrow>
       (status
          \<and> db_insert env (tick w1) (new_event env (tick w1) (''success '' @ url)) = None \<longrightarrow>
          (\<exists>w' ev. run_regular_body env cfg url w = (Inr (), w') \<and> events w' = events w @ [ev]
                   \<and> description ev = ''success '' @ url \<and> outbox w' = outbox w))
     \<and> (\<not> status
          \<and> send_message env (tick w1)
               \<lparr>subject = ''[URGENT] Service failed for url '' @ url,
                content = build_message url ctx,
                from_addr = from_email cfg, to_addr = to_email cfg\<rparr> = None
          \<and> db_insert env (tick w1 + 1) (new_event env (tick w1 + 1) (''failed '' @ url)) = None
          \<longrightarrow>
          (\<exists>w' ev. run_regular_body env cfg url w = (Inr (), w') \<and> events w' = events w @ [ev]
                   \<and> description ev = ''failed '' @ url
                   \<and> outbox w' = outbox w @
                        [\<lparr>subject = ''[URGENT] Service failed for url '' @ url,
                          content = build_message url ctx,
                          from_addr = from_email cfg, to_addr = to_email cfg\<rparr>])))
   \<and> (\<exists>oks new.
         length oks \<le> length (urls cfg)
         \<and> events (snd (run_regular env cfg w)) = events w @ new
         \<and> map description new = map2 event_label oks (urls cfg)
         \<and> (fst (run_regular env cfg w) = Inr () \<longrightarrow>
              length oks = length (urls cfg)
              \<and> (\<exists>sent. outbox (snd (run_regular env cfg w)) = outbox w @ sent
                    \<and> map subject sent
                        = map urgent_subject
                            (map snd (filter (\<lambda>x. \<not> fst x) (zip oks (urls cfg))))))
         \<and> ((\<exists>e. fst (run_regular env cfg w) = Inl e) \<longrightarrow> length oks < length (urls cfg)))"
proof -
  have ok: "\<exists>w' ev. run_regular_body env cfg url w = (Inr (), w') \<and> events w' = events w @ [ev]
                   \<and> description ev = ''success '' @ url \<and> outbox w' = outbox w"
    if ru: "run_url env url w = (Inr (status, ctx), w1)"
      and c: "status
          \<and> db_insert env (tick w1) (new_event env (tick w1) (''success '' @ url)) = None"
    for status ctx w1
  proof -
    from ru c have ru': "run_url env url w = (Inr (True, ctx), w1)" by simp
    from c have ins: "db_insert env (tick w1) (new_event env (tick w1) (''success '' @ url)) = None"
      by simp
    from run_url_store [OF ru'] have st: "events w1 = events w" "outbox w1 = outbox w"
      by simp_all
    let ?w' = "w1\<lparr>tick := tick w1 + 1,
                   events := events w1 @ [new_event env (tick w1) (''success '' @ url)]\<rparr>"
    have "run_regular_body env cfg url w = (Inr (), ?w')"
      using body_success [OF ru'] log_event_stored [OF ins] by simp
    moreover have "events ?w' = events w @ [new_event env (tick w1) (''success '' @ url)]"
      by (simp add: st)
    moreover have "outbox ?w' = outbox w"
      by (simp add: st)
    moreover have "description (new_event env (tick w1) (''success '' @ url)) = ''success '' @ url"
      by (simp add: new_event_def)
    ultimately show ?thesis by blast
  qed
  have failed: "\<exists>w' ev. run_regular_body env cfg url w = (Inr (), w') \<and> events w' = events w @ [ev]
                   \<and> description ev = ''failed '' @ url
                   \<and> outbox w' = outbox w @
                        [\<lparr>subject = ''[URGENT] Service failed for url '' @ url,
                          content = build_message url ctx,
                          from_addr = from_email cfg, to_addr = to_email cfg\<rparr>]"
    if ru: "run_url env url w = (Inr (status, ctx), w1)"
      and c: "\<not> status
          \<and> send_message env (tick w1)
               \<lparr>subject = ''[URGENT] Service failed for url '' @ url,
                content = build_message url ctx,
                from_addr = from_email cfg, to_addr = to_email cfg\<rparr> = None
          \<and> db_insert env (tick w1 + 1) (new_event env (tick w1 + 1) (''failed '' @ url)) = None"
    for status ctx w1
  proof -
    let ?msg = "\<lparr>subject = ''[URGENT] Service failed for url '' @ url,
                  content = build_message url ctx,
                  from_addr = from_email cfg, to_addr = to_email cfg\<rparr>"
    let ?w2 = "w1\<lparr>tick := tick w1 + 1, outbox := outbox w1 @ [?msg]\<rparr>"
    let ?ev = "new_event env (tick w1 + 1) (''failed '' @ url)"
    let ?w' = "?w2\<lparr>tick := tick ?w2 + 1, events := events ?w2 @ [new_event env (tick ?w2) (''failed '' @ url)]\<rparr>"
    from ru c have ru': "run_url env url w = (Inr (False, ctx), w1)" by simp
    from c have sent: "send_message env (tick w1) ?msg = None" by simp
    from c have ins: "db_insert env (tick ?w2) (new_event env (tick ?w2) (''failed '' @ url)) = None"
      by simp
    from run_url_store [OF ru'] have st: "events w1 = events w" "outbox w1 = outbox w"
      by simp_all
    have "run_regular_body env cfg url w = (Inr (), ?w')"
      using body_failed_sent [OF ru' sent] log_event_stored [OF ins] by simp
    moreover have "events ?w' = events w @ [?ev]"
      by (simp add: st)
    moreover have "outbox ?w' = outbox w @ [?msg]"
      by (simp add: st)
    moreover have "description ?ev = ''failed '' @ url"
      by (simp add: new_event_def)
    ultimately show ?thesis by blast
  qed
  from loop_trace [of "urls cfg" env cfg w]
  have run: "\<exists>oks new.
         length oks \<le> length (urls cfg)
         \<and> events (snd (run_regular env cfg w)) = events w @ new
         \<and> map description new = map2 event_label oks (urls cfg)
         \<and> (fst (run_regular env cfg w) = Inr () \<longrightarrow>
              length oks = length (urls cfg)
              \<and> (\<exists>sent. outbox (snd (run_regular env cfg w)) = outbox w @ sent
                    \<and> map subject sent
                        = map urgent_subject
                            (map snd (filter (\<lambda>x. \<not> fst x) (zip oks (urls cfg))))))
         \<and> ((\<exists>e. fst (run_regular env cfg w) = Inl e) \<longrightarrow> length oks < length (urls cfg))"
    unfolding run_regular_def .
  from ok failed run show ?thesis by blast
qed

theorem run_regular_one_event_each_witness:
  "(\<exists>w' ev. run_regular_body tcp_down_env (demo_config []) ''http://a'' fresh_world = (Inr (), w')
            \<and> events w' = events fresh_world @ [ev]
            \<and> description ev = ''success '' @ ''http://a'' \<and> outbox w' = outbox fresh_world)
   \<and> (\<exists>w' ev. run_regular_body tcp_down_env (demo_config []) ''localhost:1'' fresh_world = (Inr (), w')
            \<and> events w' = events fresh_world @ [ev]
            \<and> description ev = ''failed '' @ ''localhost:1''
            \<and> map subject (outbox w') = [''[URGENT] Service failed for url localhost:1''])
   \<and> (\<exists>oks new sent.
         length oks = 2
         \<and> events (snd (run_regular tcp_down_env (demo_config [''http://a'', ''localhost:1''])
                          fresh_world)) = events fresh_world @ new
         \<and> map description new = map2 event_label oks [''http://a'', ''localhost:1'']
         \<and> outbox (snd (run_regular tcp_down_env (demo_config [''http://a'', ''localhost:1''])
                          fresh_world)) = outbox fresh_world @ sent
         \<and> map subject sent
             = map urgent_subject
                 (map snd (filter (\<lambda>x. \<not> fst x) (zip oks [''http://a'', ''localhost:1'']))))
   \<and> map description
         (events (snd (run_regular tcp_down_env (demo_config [''http://a'', ''localhost:1''])
                        fresh_world)))
       = [''success http://a'', ''failed localhost:1'']
   \<and> map subject
         (outbox (snd (run_regular tcp_down_env (demo_config [''http://a'', ''localhost:1''])
                        fresh_world)))
       = [''[URGENT] Service failed for url localhost:1'']"
proof -
  let ?cfg = "demo_config [''http://a'', ''localhost:1'']"
  note H = run_regular_one_event_each [of tcp_down_env "''http://a''" fresh_world "demo_config []"]
  note T = run_regular_one_event_each [of tcp_down_env "''localhost:1''" fresh_world "demo_config []"]
  note R = run_regular_one_event_each [of tcp_down_env "''http://a''" fresh_world ?cfg]
  have ins: "db_insert tcp_down_env t r = None" for t r
    by (simp add: tcp_down_env_def demo_env_def)
  have "run_url tcp_down_env ''http://a'' fresh_world
          = (Inr (True, []), snd (run_url tcp_down_env ''http://a'' fresh_world))"
    using probe_http_a by (metis prod.collapse)
  with H ins have a: "\<exists>w' ev. run_regular_body tcp_down_env (demo_config []) ''http://a'' fresh_world = (Inr (), w')
            \<and> events w' = events fresh_world @ [ev]
            \<and> description ev = ''success '' @ ''http://a'' \<and> outbox w' = outbox fresh_world"
    by blast
  let ?msg = "\<lparr>subject = ''[URGENT] Service failed for url '' @ ''localhost:1'',
                content = build_message ''localhost:1'' (format_exc tcp_down_env connection_refused),
                from_addr = from_email (demo_config []), to_addr = to_email (demo_config [])\<rparr>"
  have "run_url tcp_down_env ''localhost:1'' fresh_world
          = (Inr (False, format_exc tcp_down_env connection_refused),
             snd (run_url tcp_down_env ''localhost:1'' fresh_world))"
    using probe_localhost_1 by (metis prod.collapse)
  moreover have "\<not> False
    \<and> send_message tcp_down_env (tick (snd (run_url tcp_down_env ''localhost:1'' fresh_world))) ?msg
        = None
    \<and> db_insert tcp_down_env (tick (snd (run_url tcp_down_env ''localhost:1'' fresh_world)) + 1)
        (new_event tcp_down_env (tick (snd (run_url tcp_down_env ''localhost:1'' fresh_world)) + 1)
           (''failed '' @ ''localhost:1'')) = None"
    by (simp add: tcp_down_env_def demo_env_def)
  ultimately have "\<exists>w' ev. run_regular_body tcp_down_env (demo_config []) ''localhost:1'' fresh_world
                              = (Inr (), w')
            \<and> events w' = events fresh_world @ [ev]
            \<and> description ev = ''failed '' @ ''localhost:1''
            \<and> outbox w' = outbox fresh_world @ [?msg]"
    using T by blast
  then have b: "\<exists>w' ev. run_regular_body tcp_down_env (demo_config []) ''localhost:1'' fresh_world
                              = (Inr (), w')
            \<and> events w' = events fresh_world @ [ev]
            \<and> description ev = ''failed '' @ ''localhost:1''
            \<and> map subject (outbox w') = [''[URGENT] Service failed for url localhost:1'']"
    by (auto simp: fresh_world_def)
  from R obtain oks new where r:
    "events (snd (run_regular tcp_down_env ?cfg fresh_world)) = events fresh_world @ new"
    "map description new = map2 event_label oks (urls ?cfg)"
    "fst (run_regular tcp_down_env ?cfg fresh_world) = Inr () \<longrightarrow>
       length oks = length (urls ?cfg)
       \<and> (\<exists>sent. outbox (snd (run_regular tcp_down_env ?cfg fresh_world)) = outbox fresh_world @ sent
             \<and> map subject sent
                 = map urgent_subject (map snd (filter (\<lambda>x. \<not> fst x) (zip oks (urls ?cfg)))))"
    by blast
  have u: "urls ?cfg = [''http://a'', ''localhost:1'']"
    by (simp add: demo_config_def)
  from r(3) scenario_a_result obtain sent where s:
    "length oks = length (urls ?cfg)"
    "outbox (snd (run_regular tcp_down_env ?cfg fresh_world)) = outbox fresh_world @ sent"
    "map subject sent = map urgent_subject (map snd (filter (\<lambda>x. \<not> fst x) (zip oks (urls ?cfg))))"
    by blast
  from s(1) have "length oks = 2"
    by (simp add: u)
  with r(1,2) s(2,3) have c: "\<exists>oks new sent.
         length oks = 2
         \<and> events (snd (run_regular tcp_down_env ?cfg fresh_world)) = events fresh_world @ new
         \<and> map description new = map2 event_label oks [''http://a'', ''localhost:1'']
         \<and> outbox (snd (run_regular tcp_down_env ?cfg fresh_world)) = outbox fresh_world @ sent
         \<and> map subject sent
             = map urgent_subject
                 (map snd (filter (\<lambda>x. \<not> fst x) (zip oks [''http://a'', ''localhost:1''])))"
    unfolding u by blast
  from a b c scenario_a_events scenario_a_outbox show ?thesis
    by blast
qed

text \<open>
  A probe that completes can leave no event. When the TCP probe of \<open>localhost:1\<close> fails
  and the mail server refuses the notification, the run ends with the mail error and the
  store is still empty. When the HTTP probe of \<open>http://a\<close> succeeds and the store
  refuses the append, the run ends with the store's error and the store is still empty.
\<close>

theorem probe_without_event_counterexample:
  "fst (run_url mail_down_env ''localhost:1'' fresh_world)
     = Inr (False, format_exc mail_down_env connection_refused)
   \<and> fst (run_regular mail_down_env (demo_config [''localhost:1'']) fresh_world) = Inl smtp_down
   \<and> events (snd (run_regular mail_down_env (demo_config [''localhost:1'']) fresh_world)) = []
   \<and> fst (run_url store_down_env ''http://a'' fresh_world) = Inr (True, [])
   \<and> fst (run_regular store_down_env (demo_config [''http://a'']) fresh_world)
       = Inl database_locked
   \<and> events (snd (run_regular store_down_env (demo_config [''http://a'']) fresh_world)) = []"
  by code_simp

subsection \<open>A classification failure aborts the run\<close>

text \<open>
  C8. When classification of an endpoint fails, the run fails, and the state it leaves is
  the state after processing only the endpoints listed before the failing one: nothing is
  probed, sent or stored for the failing endpoint or for any endpoint listed after it.
  When the earlier endpoints were processed without error, the run fails with the
  classification error.
\<close>

theorem classification_failure_aborts:
  "find_url_type (urllib env) bad = Inl e \<longrightarrow>
     snd (run_regular env (cfg\<lparr>urls := pre @ bad # post\<rparr>) w)
       = snd (run_regular env (cfg\<lparr>urls := pre\<rparr>) w)
     \<and> (\<exists>e'. fst (run_regular env (cfg\<lparr>urls := pre @ bad # post\<rparr>) w) = Inl e')
     \<and> (fst (run_regular env (cfg\<lparr>urls := pre\<rparr>) w) = Inr () \<longrightarrow>
          fst (run_regular env (cfg\<lparr>urls := pre @ bad # post\<rparr>) w) = Inl e)"
proof
  assume bad: "find_url_type (urllib env) bad = Inl e"
  have stop: "run_regular_loop env cfg (bad # post) w1 = (Inl e, w1)" for w1
    using run_url_classification_failed [OF bad, of w1]
    by (simp add: body_classification_failed)
  obtain r w1 where pre: "run_regular_loop env cfg pre w = (r, w1)"
    by (cases "run_regular_loop env cfg pre w") auto
  show "snd (run_regular env (cfg\<lparr>urls := pre @ bad # post\<rparr>) w)
       = snd (run_regular env (cfg\<lparr>urls := pre\<rparr>) w)
     \<and> (\<exists>e'. fst (run_regular env (cfg\<lparr>urls := pre @ bad # post\<rparr>) w) = Inl e')
     \<and> (fst (run_regular env (cfg\<lparr>urls := pre\<rparr>) w) = Inr () \<longrightarrow>
          fst (run_regular env (cfg\<lparr>urls := pre @ bad # post\<rparr>) w) = Inl e)"
  proof (cases r)
    case (Inl e')
    with pre have "run_regular_loop env cfg (pre @ bad # post) w = (Inl e', w1)"
      by (simp add: loop_append)
    with pre Inl show ?thesis
      by (simp add: run_regular_urls)
  next
    case (Inr u)
    with pre stop [of w1] have "run_regular_loop env cfg (pre @ bad # post) w = (Inl e, w1)"
      by (simp add: loop_append)
    with pre Inr show ?thesis
      by (simp add: run_regular_urls)
  qed
qed

theorem classification_failure_aborts_witness:
  "fst (run_regular demo_env (demo_config [''http://a'', ''ftp://x.com'', ''localhost:1''])
         fresh_world)
     = Inl (MonitoringException ''cannot determine type: ftp://x.com'')
   \<and> snd (run_regular demo_env (demo_config [''http://a'', ''ftp://x.com'', ''localhost:1''])
            fresh_world)
       = snd (run_regular demo_env (demo_config [''http://a'']) fresh_world)
   \<and> map description
         (events (snd (run_regular demo_env
                         (demo_config [''http://a'', ''ftp://x.com'', ''localhost:1''])
                         fresh_world)))
       = [''success http://a'']
   \<and> netlog (snd (run_regular demo_env
                     (demo_config [''http://a'', ''ftp://x.com'', ''localhost:1''])
                     fresh_world))
       = [UrlOpen ''http://a'']"
proof -
  have bad: "find_url_type (urllib demo_env) ''ftp://x.com''
               = Inl (MonitoringException ''cannot determine type: ftp://x.com'')"
    using find_url_type_ftp by (simp add: demo_env_def)
  from classification_failure_aborts
         [where env = demo_env and bad = "''ftp://x.com''"
            and e = "MonitoringException ''cannot determine type: ftp://x.com''"
            and cfg = "demo_config []" and pre = "[''http://a'']" and post = "[''localhost:1'']"
            and w = fresh_world]
       bad scenario_c_prefix
  have "snd (run_regular demo_env (demo_config [''http://a'', ''ftp://x.com'', ''localhost:1''])
            fresh_world)
       = snd (run_regular demo_env (demo_config [''http://a'']) fresh_world)
     \<and> fst (run_regular demo_env (demo_config [''http://a'', ''ftp://x.com'', ''localhost:1''])
         fresh_world)
       = Inl (MonitoringException ''cannot determine type: ftp://x.com'')"
    by (simp add: demo_config_urls)
  with scenario_c_prefix_events scenario_c_prefix_netlog show ?thesis
    by simp
qed

subsection \<open>A notification failure leaves the store as it was\<close>

text \<open>
  C10. The notification of a failed probe is sent before its event is appended: when the
  delivery fails, the run ends with that error, the store holds exactly the events it had
  after the earlier endpoints (one for each of them, so no event for the failing
  endpoint), and no message has been added.
\<close>

theorem notification_failure_keeps_store:
  "run_regular env (cfg\<lparr>urls := pre\<rparr>) w = (Inr (), w1)
   \<and> run_url env u w1 = (Inr (False, ctx), w2)
   \<and> send_message env (tick w2)
        \<lparr>subject = ''[URGENT] Service failed for url '' @ u, content = build_message u ctx,
         from_addr = from_email cfg, to_addr = to_email cfg\<rparr> = Some e
   \<longrightarrow>
     fst (run_regular env (cfg\<lparr>urls := pre @ u # post\<rparr>) w) = Inl e
     \<and> events (snd (run_regular env (cfg\<lparr>urls := pre @ u # post\<rparr>) w)) = events w1
     \<and> outbox (snd (run_regular env (cfg\<lparr>urls := pre @ u # post\<rparr>) w)) = outbox w1
     \<and> (\<exists>new. events w1 = events w @ new \<and> length new = length pre)"
proof
  assume a: "run_regular env (cfg\<lparr>urls := pre\<rparr>) w = (Inr (), w1)
   \<and> run_url env u w1 = (Inr (False, ctx), w2)
   \<and> send_message env (tick w2)
        \<lparr>subject = ''[URGENT] Service failed for url '' @ u, content = build_message u ctx,
         from_addr = from_email cfg, to_addr = to_email cfg\<rparr> = Some e"
  then have pre: "run_regular_loop env cfg pre w = (Inr (), w1)"
    by (simp add: run_regular_urls)
  from a have ru: "run_url env u w1 = (Inr (False, ctx), w2)" by simp
  from a have sm: "send_message env (tick w2)
        \<lparr>subject = ''[URGENT] Service failed for url '' @ u, content = build_message u ctx,
         from_addr = from_email cfg, to_addr = to_email cfg\<rparr> = Some e" by simp
  from body_failed_unsent [OF ru sm]
  have "run_regular_loop env cfg (u # post) w1 = (Inl e, w2\<lparr>tick := tick w2 + 1\<rparr>)"
    by simp
  with pre have "run_regular_loop env cfg (pre @ u # post) w = (Inl e, w2\<lparr>tick := tick w2 + 1\<rparr>)"
    by (simp add: loop_append)
  then have whole: "run_regular env (cfg\<lparr>urls := pre @ u # post\<rparr>) w
                      = (Inl e, w2\<lparr>tick := tick w2 + 1\<rparr>)"
    by (simp add: run_regular_urls)
  from run_url_store [OF ru] have st: "events w2 = events w1" "outbox w2 = outbox w1"
    by simp_all
  from loop_completed_events [OF pre] whole st
  show "fst (run_regular env (cfg\<lparr>urls := pre @ u # post\<rparr>) w) = Inl e
     \<and> events (snd (run_regular env (cfg\<lparr>urls := pre @ u # post\<rparr>) w)) = events w1
     \<and> outbox (snd (run_regular env (cfg\<lparr>urls := pre @ u # post\<rparr>) w)) = outbox w1
     \<and> (\<exists>new. events w1 = events w @ new \<and> length new = length pre)"
    by simp
qed

theorem notification_failure_keeps_store_witness:
  "fst (run_regular mail_down_env (demo_config [''http://a'', ''localhost:1'', ''http://b''])
         fresh_world) = Inl smtp_down
   \<and> map description
         (events (snd (run_regular mail_down_env
                         (demo_config [''http://a'', ''localhost:1'', ''http://b''])
                         fresh_world)))
       = [''success http://a'']"
proof -
  let ?w1 = "snd (run_regular mail_down_env (demo_config [''http://a'']) fresh_world)"
  let ?w2 = "snd (run_url mail_down_env ''localhost:1'' ?w1)"
  have p: "run_regular mail_down_env ((demo_config [])\<lparr>urls := [''http://a'']\<rparr>) fresh_world
             = (Inr (), ?w1)"
    using mail_down_prefix by (metis demo_config_urls prod.collapse)
  have q: "run_url mail_down_env ''localhost:1'' ?w1
             = (Inr (False, format_exc mail_down_env connection_refused), ?w2)"
    using mail_down_probe by (metis prod.collapse)
  have s: "send_message mail_down_env (tick ?w2)
        \<lparr>subject = ''[URGENT] Service failed for url '' @ ''localhost:1'',
         content = build_message ''localhost:1'' (format_exc mail_down_env connection_refused),
         from_addr = from_email (demo_config []), to_addr = to_email (demo_config [])\<rparr>
        = Some smtp_down"
    by (simp add: mail_down_env_def)
  from notification_failure_keeps_store
         [where env = mail_down_env and cfg = "demo_config []" and pre = "[''http://a'']"
            and w = fresh_world and ?w1.0 = ?w1 and u = "''localhost:1''"
            and ctx = "format_exc mail_down_env connection_refused" and ?w2.0 = ?w2
            and e = smtp_down and post = "[''http://b'']"]
       p q s
  have "fst (run_regular mail_down_env
               ((demo_config [])\<lparr>urls := [''http://a''] @ ''localhost:1'' # [''http://b'']\<rparr>)
               fresh_world) = Inl smtp_down
        \<and> events (snd (run_regular mail_down_env
               ((demo_config [])\<lparr>urls := [''http://a''] @ ''localhost:1'' # [''http://b'']\<rparr>)
               fresh_world)) = events ?w1"
    by blast
  then show ?thesis
    by (simp add: demo_config_urls mail_down_prefix_events)
qed

section \<open>Resume mode\<close>

lemma resume_loop_map:
  "resume_loop env db yesterday today us acc
     = acc @ map (\<lambda>u. (u, query_event_count env db (''failed '' @ u) yesterday today,
                          query_event_count env db (''success '' @ u) yesterday today)) us"
  by (induction us arbitrary: acc) (simp_all add: Let_def)


lemma py_join_member:
  "l \<in> set ls \<Longrightarrow> \<exists>ps ss. py_join sep ls = ps @ l @ ss"
proof (induction sep ls rule: py_join.induct)
  case (1 sep)
  then show ?case by simp
next
  case (2 sep p)
  then have "py_join sep [p] = [] @ l @ []" by simp
  then show ?case by blast
next
  case (3 sep p q ps)
  show ?case
  proof (cases "l = p")
    case True
    then have "py_join sep (p # q # ps) = [] @ l @ (sep @ py_join sep (q # ps))" by simp
    then show ?thesis by blast
  next
    case False
    with 3 obtain ps' ss where "py_join sep (q # ps) = ps' @ l @ ss" by auto
    then have "py_join sep (p # q # ps) = (p @ sep @ ps') @ l @ ss" by simp
    then show ?thesis by blast
  qed
qed

lemma resume_message_lists:
  "\<exists>ps ss. per_url_message = ps @ l @ ss \<Longrightarrow>
   \<exists>ps ss. resume_message since until total_runs total_errors per_url_message = ps @ l @ ss"
proof -
  assume "\<exists>ps ss. per_url_message = ps @ l @ ss"
  then obtain ps ss where m: "per_url_message = ps @ l @ ss" by blast
  let ?head = "[NL] @ ''    Here is your summary from '' @ since @ '' until '' @ until @ '':''
      @ [NL, NL] @ ''    Total Runs: '' @ str_nat total_runs @ [NL]
      @ ''    Total Errors:  '' @ str_nat total_errors @ [NL] @ ''    '' @ [NL]
      @ ''    Per URL (url: errors / runs):'' @ [NL] @ ''    ''"
  let ?tail = "[NL, NL] @ ''    Have a great day!'' @ [NL] @ ''    ''"
  have "resume_message since until total_runs total_errors per_url_message
          = (?head @ ps) @ l @ (ss @ ?tail)"
    unfolding resume_message_def m by simp
  then show ?thesis by blast
qed

lemma scenario_b_failed:
  "query_event_count scenario_b_env (events scenario_b_world) ''failed http://a''
     (datetime_now scenario_b_env (tick scenario_b_world) - 86400000000)
     (datetime_now scenario_b_env (tick scenario_b_world)) = 1"
  by code_simp

lemma scenario_b_success:
  "query_event_count scenario_b_env (events scenario_b_world) ''success http://a''
     (datetime_now scenario_b_env (tick scenario_b_world) - 86400000000)
     (datetime_now scenario_b_env (tick scenario_b_world)) = 3"
  by code_simp

lemma scenario_b_send: "send_message scenario_b_env t m = None"
  by (simp add: scenario_b_env_def demo_env_def)

lemma str_nat_1_4: "str_nat (Suc 0) = ''1'' \<and> str_nat 4 = ''4''"
  by code_simp

text \<open>
  C7. In resume mode the window runs from \<open>now - 24h\<close> to \<open>now\<close>. For each configured
  endpoint the counts of \<open>failed {endpoint}\<close> and \<open>success {endpoint}\<close> in that window
  are queried; the total of errors is the sum of the failed counts and the total of runs
  is that plus the sum of the success counts. One message with subject
  \<open>Monitoring Daily Resume\<close> is handed to the mail server; its body holds the two
  totals and, for each endpoint, the line \<open>{endpoint}: {failed} / {failed + success}\<close>.
  The store is not changed.
\<close>

theorem run_resume_digest:
  "(let today = datetime_now env (tick w);
        yesterday = today - 24 * 3600 * 1000000;
        failed = (\<lambda>u. query_event_count env (events w) (''failed '' @ u) yesterday today);
        success = (\<lambda>u. query_event_count env (events w) (''success '' @ u) yesterday today);
        total_errors = (\<Sum>u\<leftarrow>urls cfg. failed u);
        total_runs = total_errors + (\<Sum>u\<leftarrow>urls cfg. success u);
        line = (\<lambda>u. u @ '': '' @ str_nat (failed u) @ '' / '' @ str_nat (failed u + success u));
        msg = \<lparr>subject = ''Monitoring Daily Resume'',
               content = resume_message (before (CHR ''.'') (isoformat env yesterday))
                           (before (CHR ''.'') (isoformat env today)) total_runs total_errors
                           ([TAB] @ py_join [NL, TAB] (map line (urls cfg))),
               from_addr = from_email cfg, to_addr = to_email cfg\<rparr>
    in run_resume env cfg w
         = (case send_message env (tick w + 1) msg of
              Some e \<Rightarrow> (Inl e, w\<lparr>tick := tick w + 2\<rparr>)
            | None \<Rightarrow> (Inr (), w\<lparr>tick := tick w + 2, outbox := outbox w @ [msg]\<rparr>))
       \<and> (\<forall>u \<in> set (urls cfg). \<exists>ps ss. content msg = ps @ line u @ ss)
       \<and> events (snd (run_resume env cfg w)) = events w)"
proof -
  define today where "today = datetime_now env (tick w)"
  define yesterday where "yesterday = today - 24 * 3600 * 1000000"
  define failed where
    "failed = (\<lambda>u. query_event_count env (events w) (''failed '' @ u) yesterday today)"
  define success where
    "success = (\<lambda>u. query_event_count env (events w) (''success '' @ u) yesterday today)"
  define total_errors where "total_errors = (\<Sum>u\<leftarrow>urls cfg. failed u)"
  define total_runs where "total_runs = total_errors + (\<Sum>u\<leftarrow>urls cfg. success u)"
  define line where
    "line = (\<lambda>u. u @ '': '' @ str_nat (failed u) @ '' / '' @ str_nat (failed u + success u))"
  define msg where
    "msg = \<lparr>subject = ''Monitoring Daily Resume'',
             content = resume_message (before (CHR ''.'') (isoformat env yesterday))
                         (before (CHR ''.'') (isoformat env today)) total_runs total_errors
                         ([TAB] @ py_join [NL, TAB] (map line (urls cfg))),
             from_addr = from_email cfg, to_addr = to_email cfg\<rparr>"
  let ?l = "map (\<lambda>u. (u, failed u, success u)) (urls cfg)"
  have loop: "resume_loop env (events (w\<lparr>tick := tick w + 1\<rparr>)) yesterday today (urls cfg) [] = ?l"
    by (simp add: resume_loop_map failed_def success_def)
  have te: "sum_list (map (\<lambda>x. fst (snd x)) ?l) = total_errors"
    by (simp add: total_errors_def comp_def)
  have ts: "sum_list (map (\<lambda>x. snd (snd x)) ?l) = (\<Sum>u\<leftarrow>urls cfg. success u)"
    by (simp add: comp_def)
  have ln: "map per_url_line ?l = map line (urls cfg)"
    by (simp add: per_url_line_def line_def comp_def add.commute)
  have y: "datetime_now env (tick w) - timedelta_hours 24 = yesterday"
    by (simp add: yesterday_def today_def timedelta_hours_def)
  have run: "run_resume env cfg w
               = send_notification env ''Monitoring Daily Resume'' (content msg)
                   (from_email cfg) (to_email cfg) (w\<lparr>tick := tick w + 1\<rparr>)"
    unfolding run_resume_def Let_def y
    unfolding today_def [symmetric] loop te ts ln
    by (simp add: msg_def total_runs_def)
  have sn: "send_notification env ''Monitoring Daily Resume'' (content msg)
                   (from_email cfg) (to_email cfg) (w\<lparr>tick := tick w + 1\<rparr>)
              = (case send_message env (tick w + 1) msg of
                   Some e \<Rightarrow> (Inl e, w\<lparr>tick := tick w + 2\<rparr>)
                 | None \<Rightarrow> (Inr (), w\<lparr>tick := tick w + 2, outbox := outbox w @ [msg]\<rparr>))"
    by (simp add: send_notification_def Let_def msg_def split: option.splits)
  have a: "run_resume env cfg w
         = (case send_message env (tick w + 1) msg of
              Some e \<Rightarrow> (Inl e, w\<lparr>tick := tick w + 2\<rparr>)
            | None \<Rightarrow> (Inr (), w\<lparr>tick := tick w + 2, outbox := outbox w @ [msg]\<rparr>))"
    using run sn by simp
  have b: "\<exists>ps ss. content msg = ps @ line u @ ss" if "u \<in> set (urls cfg)" for u
  proof -
    from that have "line u \<in> set (map line (urls cfg))" by simp
    from py_join_member [OF this, of "[NL, TAB]"] obtain ps ss where
      "py_join [NL, TAB] (map line (urls cfg)) = ps @ line u @ ss" by blast
    then have "[TAB] @ py_join [NL, TAB] (map line (urls cfg)) = ([TAB] @ ps) @ line u @ ss"
      by simp
    then have "\<exists>ps ss. [TAB] @ py_join [NL, TAB] (map line (urls cfg)) = ps @ line u @ ss"
      by blast
    from resume_message_lists [OF this] show ?thesis
      by (simp add: msg_def)
  qed
  have c: "events (snd (run_resume env cfg w)) = events w"
    unfolding a by (simp split: option.splits)
  from a b c show ?thesis
    unfolding Let_def today_def yesterday_def failed_def success_def total_errors_def
      total_runs_def line_def msg_def
    by blast
qed

theorem run_resume_digest_witness:
  "fst (run_resume scenario_b_env (demo_config [''http://a'']) scenario_b_world) = Inr ()
   \<and> (\<exists>m ps ss.
         outbox (snd (run_resume scenario_b_env (demo_config [''http://a'']) scenario_b_world)) = [m]
         \<and> subject m = ''Monitoring Daily Resume''
         \<and> content m = ps @ ''http://a: 1 / 4'' @ ss)
   \<and> events (snd (run_resume scenario_b_env (demo_config [''http://a'']) scenario_b_world))
       = scenario_b_store"
proof -
  have u: "urls (demo_config [''http://a'']) = [''http://a'']"
    by (simp add: demo_config_def)
  have o: "outbox scenario_b_world = []" and e: "events scenario_b_world = scenario_b_store"
    by (simp_all add: scenario_b_world_def)
  note D = run_resume_digest [of scenario_b_env scenario_b_world "demo_config [''http://a'']",
      unfolded Let_def u scenario_b_send]
  from D have r: "fst (run_resume scenario_b_env (demo_config [''http://a'']) scenario_b_world) = Inr ()"
    by simp
  from D have ev: "events (snd (run_resume scenario_b_env (demo_config [''http://a'']) scenario_b_world))
       = scenario_b_store"
    by (simp add: e)
  from D have "\<exists>m ps ss.
         outbox (snd (run_resume scenario_b_env (demo_config [''http://a'']) scenario_b_world)) = [m]
         \<and> subject m = ''Monitoring Daily Resume''
         \<and> content m = ps @ ''http://a: 1 / 4'' @ ss"
    by (simp add: o scenario_b_failed scenario_b_success str_nat_1_4)
  with r ev show ?thesis by blast
qed

end
